theory Spec2Isabelle
  imports Complex_Main
begin

section \<open>Common types\<close>

text \<open>
  Clock readings (\<^verbatim>\<open>time.time()\<close>, \<^verbatim>\<open>datetime.now()\<close>) are seconds on the real line.
  The source computes with IEEE doubles; the model computes with exact reals, so rounding
  is outside the model.
\<close>

type_synonym time = real

section \<open>PersonTracker (src/tracking/person\_tracker.py)\<close>

text \<open>
  A bounding box is the tuple \<^verbatim>\<open>(x1, y1, x2, y2)\<close> returned by the detector; a face location
  is the tuple \<^verbatim>\<open>(top, right, bottom, left)\<close> returned by the recognizer.
\<close>

type_synonym bbox = "real \<times> real \<times> real \<times> real"
type_synonym face_loc = "int \<times> int \<times> int \<times> int"

text \<open>One entry of \<^verbatim>\<open>self.tracked\<close>: the dict with keys bbox, name, face\_loc, last\_check.\<close>

record tracked_person =
  bbox :: bbox
  name :: "string option"
  face_loc :: "face_loc option"
  last_check :: time

record person_tracker =
  tracked :: "tracked_person list"
  last_person_count :: nat
  move_threshold :: real
  recheck_interval :: real

text \<open>\<^verbatim>\<open>PersonTracker.__init__\<close>, with the two configuration values as parameters.\<close>

definition tracker_init :: "real \<Rightarrow> real \<Rightarrow> person_tracker" where
  "tracker_init thr iv =
     \<lparr>tracked = [], last_person_count = 0, move_threshold = thr, recheck_interval = iv\<rparr>"

text \<open>
  The numbers in a box are the floating-point numbers the detector returns (numpy
  float32). Each of them is a real number, and comparisons between them are exact; what
  \<^verbatim>\<open>+\<close>, \<^verbatim>\<open>-\<close>, \<^verbatim>\<open>/ 2\<close>, \<^verbatim>\<open>** 2\<close> and \<^verbatim>\<open>np.sqrt\<close> return on them is decided by the number
  format and its rounding, which belong to the number library. These five operations are
  therefore a parameter of the model. An arithmetic that rounds every exact result with a
  function \<open>rnd\<close> is \<open>rounded_arith rnd\<close>; arithmetic without rounding is \<open>exact_arith\<close>.
\<close>

record arith =
  f_add :: "real \<Rightarrow> real \<Rightarrow> real"
  f_sub :: "real \<Rightarrow> real \<Rightarrow> real"
  f_half :: "real \<Rightarrow> real"
  f_square :: "real \<Rightarrow> real"
  f_sqrt :: "real \<Rightarrow> real"

definition rounded_arith :: "(real \<Rightarrow> real) \<Rightarrow> arith" where
  "rounded_arith rnd =
     \<lparr>f_add = (\<lambda>x y. rnd (x + y)), f_sub = (\<lambda>x y. rnd (x - y)), f_half = (\<lambda>x. rnd (x / 2)),
      f_square = (\<lambda>x. rnd (x\<^sup>2)), f_sqrt = (\<lambda>x. rnd (sqrt x))\<rparr>"

definition exact_arith :: arith where
  "exact_arith = rounded_arith (\<lambda>x. x)"

text \<open>\<^verbatim>\<open>_bbox_distance\<close>: distance between the centers of two boxes, operation by operation.\<close>

fun bbox_distance :: "arith \<Rightarrow> bbox \<Rightarrow> bbox \<Rightarrow> real" where
  "bbox_distance ar (a0, a1, a2, a3) (b0, b1, b2, b3) =
     (let cx1 = f_half ar (f_add ar a0 a2);
          cy1 = f_half ar (f_add ar a1 a3);
          cx2 = f_half ar (f_add ar b0 b2);
          cy2 = f_half ar (f_add ar b1 b3)
      in f_sqrt ar (f_add ar (f_square ar (f_sub ar cx1 cx2)) (f_square ar (f_sub ar cy1 cy2))))"

text \<open>
  The inner loop \<^verbatim>\<open>for t in self.tracked\<close> of \<^verbatim>\<open>needs_face_check\<close> for one current box.
  It leaves in one of three ways: the first slot within the threshold is stale (the
  function returns True), the first slot within the threshold is fresh (\<^verbatim>\<open>break\<close> with
  \<^verbatim>\<open>matched = True\<close>), or the slots are exhausted (\<^verbatim>\<open>matched = False\<close>).
\<close>

datatype scan = Stale | Fresh | NoMatch

fun scan_tracked ::
  "arith \<Rightarrow> person_tracker \<Rightarrow> time \<Rightarrow> bbox \<Rightarrow> tracked_person list \<Rightarrow> scan" where
  "scan_tracked ar tr now curr_box [] = NoMatch"
| "scan_tracked ar tr now curr_box (t # ts) =
     (if bbox_distance ar curr_box (bbox t) < move_threshold tr
      then (if now - last_check t > recheck_interval tr then Stale else Fresh)
      else scan_tracked ar tr now curr_box ts)"

text \<open>The outer loop \<^verbatim>\<open>for curr_box in current_boxes\<close>, ending in \<^verbatim>\<open>return False\<close>.\<close>

fun check_boxes :: "arith \<Rightarrow> person_tracker \<Rightarrow> time \<Rightarrow> bbox list \<Rightarrow> bool" where
  "check_boxes ar tr now [] = False"
| "check_boxes ar tr now (curr_box # rest) =
     (case scan_tracked ar tr now curr_box (tracked tr) of
        Stale \<Rightarrow> True
      | NoMatch \<Rightarrow> True
      | Fresh \<Rightarrow> check_boxes ar tr now rest)"

text \<open>\<^verbatim>\<open>needs_face_check\<close>; \<open>now\<close> is the value \<^verbatim>\<open>time.time()\<close> returns in the call.\<close>

definition needs_face_check :: "arith \<Rightarrow> person_tracker \<Rightarrow> time \<Rightarrow> bbox list \<Rightarrow> bool" where
  "needs_face_check ar tr now current_boxes =
     (if length current_boxes \<noteq> last_person_count tr then True
      else if length current_boxes = 0 then False
      else check_boxes ar tr now current_boxes)"

text \<open>
  \<^verbatim>\<open>update\<close>: every slot is rebuilt; slot \<open>i\<close> takes the first face of
  \<^verbatim>\<open>faces_per_box[i]\<close> when that list exists and is not empty.
\<close>

fun new_entry :: "time \<Rightarrow> (string \<times> face_loc) list list \<Rightarrow> nat \<times> bbox \<Rightarrow> tracked_person" where
  "new_entry now faces_per_box (i, box) =
     (if i < length faces_per_box \<and> faces_per_box ! i \<noteq> []
      then \<lparr>bbox = box, name = Some (fst (hd (faces_per_box ! i))),
            face_loc = Some (snd (hd (faces_per_box ! i))), last_check = now\<rparr>
      else \<lparr>bbox = box, name = None, face_loc = None, last_check = now\<rparr>)"

definition update :: "person_tracker \<Rightarrow> time \<Rightarrow> bbox list \<Rightarrow> (string \<times> face_loc) list list \<Rightarrow> person_tracker" where
  "update tr now boxes faces_per_box =
     tr\<lparr>last_person_count := length boxes,
        tracked := map (new_entry now faces_per_box) (enumerate 0 boxes)\<rparr>"

text \<open>\<^verbatim>\<open>get_cached\<close>.\<close>

definition get_cached :: "person_tracker \<Rightarrow> (string option \<times> face_loc option \<times> bbox) list" where
  "get_cached tr = map (\<lambda>t. (name t, face_loc t, bbox t)) (tracked tr)"

text \<open>
  The tracker part of \<^verbatim>\<open>SecuritySystem.process_frame\<close> (main.py): the tracker is updated
  only when \<^verbatim>\<open>needs_face_check\<close> answers True. A frame carries the clock reading of the
  check, the clock reading of the update, the detected boxes and the recognizer's answers.
  \<open>run_frames\<close> feeds a sequence of frames and collects the answers.
\<close>

type_synonym frame_input = "time \<times> time \<times> bbox list \<times> (string \<times> face_loc) list list"

fun track_frame :: "arith \<Rightarrow> person_tracker \<Rightarrow> frame_input \<Rightarrow> bool \<times> person_tracker" where
  "track_frame ar tr (now, now_upd, boxes, faces_per_box) =
     (if needs_face_check ar tr now boxes
      then (True, update tr now_upd boxes faces_per_box)
      else (False, tr))"

fun run_frames ::
  "arith \<Rightarrow> person_tracker \<Rightarrow> frame_input list \<Rightarrow> bool list \<times> person_tracker" where
  "run_frames ar tr [] = ([], tr)"
| "run_frames ar tr (f # fs) =
     (case track_frame ar tr f of
        (d, tr') \<Rightarrow> (case run_frames ar tr' fs of (ds, tr'') \<Rightarrow> (d # ds, tr'')))"

text \<open>
  The center of a box as a point of the plane, and the Euclidean distance between the
  centers of two boxes, as the specification names it.
\<close>

definition box_center :: "bbox \<Rightarrow> complex" where
  "box_center b = (case b of (x1, y1, x2, y2) \<Rightarrow> Complex ((x1 + x2) / 2) ((y1 + y2) / 2))"

definition center_distance :: "bbox \<Rightarrow> bbox \<Rightarrow> real" where
  "center_distance b1 b2 = dist (box_center b1) (box_center b2)"

text \<open>
  The decision as the specification words it (section 4.1, steps 1 to 5 with the
  first-match tie-break) for a given distance between boxes, for comparison with
  \<open>needs_face_check\<close>.
\<close>

definition needsRecheck_spec ::
  "(bbox \<Rightarrow> bbox \<Rightarrow> real) \<Rightarrow> person_tracker \<Rightarrow> time \<Rightarrow> bbox list \<Rightarrow> bool" where
  "needsRecheck_spec distance tr now currentBoxes =
     (if length currentBoxes \<noteq> last_person_count tr then True
      else if currentBoxes = [] then False
      else list_ex
             (\<lambda>b. case find (\<lambda>t. distance b (bbox t) < move_threshold tr) (tracked tr) of
                     None \<Rightarrow> True
                   | Some t \<Rightarrow> now - last_check t > recheck_interval tr)
             currentBoxes)"

text \<open>
  A frame is steady with respect to the state of the last check when it has as many boxes
  as that check saw, the center of each of its boxes lies, by the distance computed, less
  than the threshold away from the center of some box cached at that check, and no more
  than the recheck interval has elapsed since the check at \<open>t0\<close>.
\<close>

definition steady_frame :: "arith \<Rightarrow> real \<Rightarrow> real \<Rightarrow> time \<Rightarrow> bbox list \<Rightarrow> frame_input \<Rightarrow> bool" where
  "steady_frame ar thr iv t0 boxes0 f =
     (case f of (now, now_upd, boxes, faces) \<Rightarrow>
        length boxes = length boxes0 \<and>
        list_all (\<lambda>b. list_ex (\<lambda>b0. bbox_distance ar b b0 < thr) boxes0) boxes \<and>
        now - t0 \<le> iv)"

section \<open>ActivityLogger (src/logging/activity\_logger.py)\<close>

text \<open>
  The logger's fields: \<^verbatim>\<open>last_seen\<close> (a dict from name to the time of the last logged
  detection), the two cooldowns, and whether \<^verbatim>\<open>self.notifier\<close> is set (it is None after
  \<^verbatim>\<open>__init__\<close> and set to the bot by \<^verbatim>\<open>SecuritySystem._setup_bot_callbacks\<close>).
\<close>

record activity_logger =
  last_seen :: "string \<rightharpoonup> time"
  known_cooldown :: real
  unknown_cooldown :: real
  notifier :: bool

text \<open>
  What \<^verbatim>\<open>log_detection\<close> does, in program order: the assignment to \<^verbatim>\<open>last_seen\<close>, the
  snapshot written by \<^verbatim>\<open>_save_intruder\<close>, the call of \<^verbatim>\<open>notifier.send_alert\<close> with the
  answer it gave, and the row appended to the CSV file (timestamp, name, image path).
\<close>

datatype log_effect =
    LastSeenSet string time
  | SnapshotSaved string
  | AlertSent time string bool
  | RowAppended time string string

text \<open>
  The surroundings of one call: the path \<^verbatim>\<open>_save_intruder\<close> builds for a timestamp, and the
  answer of \<^verbatim>\<open>send_alert\<close> (\<^verbatim>\<open>TelegramBot.send_alert\<close> catches every exception and answers
  False instead). File-system calls are taken to succeed.
\<close>

record logger_env =
  intruder_path :: "time \<Rightarrow> string"
  send_alert_answer :: "time \<Rightarrow> string \<Rightarrow> bool"

definition logger_init :: "real \<Rightarrow> real \<Rightarrow> activity_logger" where
  "logger_init known unknown =
     \<lparr>last_seen = Map.empty, known_cooldown = known, unknown_cooldown = unknown, notifier = False\<rparr>"

text \<open>\<^verbatim>\<open>_get_cooldown\<close>.\<close>

definition get_cooldown :: "activity_logger \<Rightarrow> string \<Rightarrow> real" where
  "get_cooldown lg nm = (if nm \<noteq> ''Unknown'' then known_cooldown lg else unknown_cooldown lg)"

text \<open>\<^verbatim>\<open>_should_log\<close>; \<open>now\<close> is its own reading of \<^verbatim>\<open>datetime.now()\<close>.\<close>

definition should_log :: "activity_logger \<Rightarrow> time \<Rightarrow> string \<Rightarrow> bool" where
  "should_log lg now nm =
     (case last_seen lg nm of
        None \<Rightarrow> True
      | Some seen \<Rightarrow> now - seen > get_cooldown lg nm)"

text \<open>
  \<^verbatim>\<open>log_detection\<close>. The clock is read twice: \<open>now_check\<close> inside \<^verbatim>\<open>_should_log\<close> and
  \<open>now\<close> afterwards; \<open>now\<close> is the timestamp that is stored, sent and logged.
\<close>

definition log_detection ::
  "logger_env \<Rightarrow> activity_logger \<Rightarrow> time \<Rightarrow> time \<Rightarrow> string \<Rightarrow> bool \<times> activity_logger \<times> log_effect list" where
  "log_detection env lg now_check now nm =
     (if \<not> should_log lg now_check nm then (False, lg, [])
      else
        let lg1 = lg\<lparr>last_seen := (last_seen lg)(nm \<mapsto> now)\<rparr>
        in if nm = ''Unknown''
           then
             let image_path = intruder_path env now;
                 alert = (if notifier lg1
                          then [AlertSent now image_path (send_alert_answer env now image_path)]
                          else [])
             in (True, lg1,
                 [LastSeenSet nm now, SnapshotSaved image_path] @ alert @
                 [RowAppended now nm image_path])
           else (True, lg1, [LastSeenSet nm now, RowAppended now nm '''']))"

text \<open>The rows appended and the alerts dispatched among a list of effects.\<close>

fun is_row :: "log_effect \<Rightarrow> bool" where
  "is_row (RowAppended t nm p) = True"
| "is_row e = False"

fun is_alert :: "log_effect \<Rightarrow> bool" where
  "is_alert (AlertSent t p ok) = True"
| "is_alert e = False"

definition rows_of :: "log_effect list \<Rightarrow> log_effect list" where
  "rows_of es = filter is_row es"

definition alerts_of :: "log_effect list \<Rightarrow> log_effect list" where
  "alerts_of es = filter is_alert es"

section \<open>VideoRecorder (src/recording/video\_recorder.py)\<close>

text \<open>
  The recorder's fields. The open \<^verbatim>\<open>cv2.VideoWriter\<close> is represented by the path it writes
  to; the two callbacks by whether they are set. The frame rate and codec only reach the
  writer's constructor and are left out. \<^verbatim>\<open>print\<close> calls are left out.
\<close>

record video_recorder =
  output_dir :: string
  writer :: "string option"
  recording :: bool
  current_file :: "string option"
  frame_count :: nat
  start_time :: "time option"
  reminder_acknowledged :: bool
  last_reminder_time :: "time option"
  reminder_count :: nat
  on_reminder :: bool
  on_auto_stop :: bool

text \<open>What the recorder does to its surroundings.\<close>

datatype rec_effect =
    WriterOpened string "nat \<times> nat"
  | WriterReleased string
  | FrameWritten string
  | ReminderThreadStarted
  | ReminderCallback nat real
  | AutoStopCallback

definition recorder_init :: "string \<Rightarrow> video_recorder" where
  "recorder_init dir =
     \<lparr>output_dir = dir, writer = None, recording = False, current_file = None,
      frame_count = 0, start_time = None, reminder_acknowledged = False,
      last_reminder_time = None, reminder_count = 0, on_reminder = False,
      on_auto_stop = False\<rparr>"

text \<open>\<^verbatim>\<open>os.path.join\<close> of two components on a POSIX system.\<close>

definition path_join :: "string \<Rightarrow> string \<Rightarrow> string" where
  "path_join a b =
     (if b \<noteq> [] \<and> hd b = CHR ''/'' then b
      else if a = [] \<or> last a = CHR ''/'' then a @ b
      else a @ ''/'' @ b)"

text \<open>
  \<^verbatim>\<open>start\<close>. \<open>stamp\<close> is the formatted \<^verbatim>\<open>datetime.now()\<close> and \<open>now\<close> the reading of
  \<^verbatim>\<open>time.time()\<close> (the two consecutive readings in the body are taken to be equal).
\<close>

definition start ::
  "video_recorder \<Rightarrow> nat \<times> nat \<Rightarrow> string \<Rightarrow> time \<Rightarrow> string option \<times> video_recorder \<times> rec_effect list" where
  "start rc frame_size stamp now =
     (if recording rc then (current_file rc, rc, [])
      else
        let file = path_join (output_dir rc) (stamp @ ''.mp4'')
        in (Some file,
            rc\<lparr>current_file := Some file, writer := Some file, recording := True,
               frame_count := 0, start_time := Some now, reminder_acknowledged := False,
               last_reminder_time := Some now, reminder_count := 0\<rparr>,
            [WriterOpened file frame_size, ReminderThreadStarted]))"

text \<open>\<^verbatim>\<open>stop\<close>.\<close>

definition stop :: "video_recorder \<Rightarrow> string option \<times> video_recorder \<times> rec_effect list" where
  "stop rc =
     (if \<not> recording rc then (None, rc, [])
      else
        (current_file rc,
         rc\<lparr>recording := False, writer := None, current_file := None, frame_count := 0,
            start_time := None\<rparr>,
         (case writer rc of None \<Rightarrow> [] | Some w \<Rightarrow> [WriterReleased w])))"

text \<open>\<^verbatim>\<open>write_frame\<close>.\<close>

definition write_frame :: "video_recorder \<Rightarrow> video_recorder \<times> rec_effect list" where
  "write_frame rc =
     (case writer rc of
        Some w \<Rightarrow> if recording rc then (rc\<lparr>frame_count := frame_count rc + 1\<rparr>, [FrameWritten w])
                  else (rc, [])
      | None \<Rightarrow> (rc, []))"

definition is_recording :: "video_recorder \<Rightarrow> bool" where
  "is_recording rc = recording rc"

text \<open>\<^verbatim>\<open>get_duration\<close>; a start time of 0 is falsy in Python, like None.\<close>

definition get_duration :: "video_recorder \<Rightarrow> time \<Rightarrow> real" where
  "get_duration rc now =
     (case start_time rc of
        None \<Rightarrow> 0
      | Some st \<Rightarrow> if \<not> recording rc \<or> st = 0 then 0 else now - st)"

text \<open>\<^verbatim>\<open>acknowledge_reminder\<close>.\<close>

definition acknowledge_reminder :: "video_recorder \<Rightarrow> time \<Rightarrow> video_recorder" where
  "acknowledge_reminder rc now =
     rc\<lparr>reminder_acknowledged := True, last_reminder_time := Some now, reminder_count := 0\<rparr>"

text \<open>The constants of \<^verbatim>\<open>_reminder_loop\<close>.\<close>

definition first_interval :: real where "first_interval = 10 * 60"
definition followup_interval :: real where "followup_interval = 30 * 60"
definition max_reminders :: nat where "max_reminders = 3"

text \<open>
  One pass through the body of the \<^verbatim>\<open>while\<close> loop of \<^verbatim>\<open>_reminder_loop\<close>, from the
  return of \<^verbatim>\<open>time.sleep(30)\<close> at clock reading \<open>now\<close> on. It ends by going round again,
  by \<^verbatim>\<open>break\<close>, or with the TypeError of subtracting None when no reminder time is set.
\<close>

datatype loop_ctl = Continue | Break | TypeError

definition reminder_tick :: "video_recorder \<Rightarrow> time \<Rightarrow> loop_ctl \<times> video_recorder \<times> rec_effect list" where
  "reminder_tick rc now =
     (if \<not> recording rc then (Break, rc, [])
      else
        case last_reminder_time rc of
          None \<Rightarrow> (TypeError, rc, [])
        | Some last_time \<Rightarrow>
            let elapsed = now - last_time;
                interval = (if reminder_count rc = 0 then first_interval else followup_interval)
            in if elapsed \<ge> interval
               then
                 let rc1 = rc\<lparr>reminder_count := reminder_count rc + 1,
                              last_reminder_time := Some now,
                              reminder_acknowledged := False\<rparr>;
                     duration_min = get_duration rc1 now / 60
                 in if reminder_count rc1 \<ge> max_reminders
                    then
                      (case stop rc1 of
                         (res, rc2, es) \<Rightarrow>
                           (Break, rc2, (if on_auto_stop rc1 then [AutoStopCallback] else []) @ es))
                    else
                      (Continue, rc1,
                       (if on_reminder rc1 then [ReminderCallback (reminder_count rc1) duration_min]
                        else []))
               else (Continue, rc, []))"

text \<open>
  The loop, run by the reminder thread alone (no other thread touches the recorder in
  between). The list holds the clock readings at which the successive \<^verbatim>\<open>time.sleep(30)\<close>
  calls return; the statements of the body take no time. The answer says whether the
  loop has ended, and gives the recorder and the effects, each with the time of its pass.
\<close>

fun reminder_loop ::
  "video_recorder \<Rightarrow> time list \<Rightarrow> bool \<times> video_recorder \<times> (time \<times> rec_effect) list" where
  "reminder_loop rc [] = (\<not> recording rc, rc, [])"
| "reminder_loop rc (now # later) =
     (if \<not> recording rc then (True, rc, [])
      else
        case reminder_tick rc now of
          (Continue, rc1, es) \<Rightarrow>
            (case reminder_loop rc1 later of
               (ended, rc2, es2) \<Rightarrow> (ended, rc2, map (Pair now) es @ es2))
        | (ctl, rc1, es) \<Rightarrow> (True, rc1, map (Pair now) es))"



text \<open>\<^verbatim>\<open>SecuritySystem._on_record_start\<close> and \<^verbatim>\<open>_on_record_stop\<close> (main.py).\<close>

definition sys_on_record_start ::
  "(nat \<times> nat) option \<Rightarrow> video_recorder \<Rightarrow> string \<Rightarrow> time \<Rightarrow>
     string option \<times> video_recorder \<times> rec_effect list" where
  "sys_on_record_start frame_size rc stamp now =
     (if is_recording rc then (None, rc, [])
      else case frame_size of
             Some fs \<Rightarrow> start rc fs stamp now
           | None \<Rightarrow> (None, rc, []))"

definition sys_on_record_stop :: "video_recorder \<Rightarrow> string option \<times> video_recorder \<times> rec_effect list" where
  "sys_on_record_stop rc = stop rc"

section \<open>TelegramBot (src/notifications/telegram\_bot.py)\<close>

subsection \<open>Python string operations\<close>

text \<open>
  A Python string is a sequence of Unicode code points; a code point is a natural number.
  \<open>ustr\<close> reads a literal as the code points of its characters.
\<close>

type_synonym codepoint = nat
type_synonym ustring = "codepoint list"

definition ustr :: "string \<Rightarrow> ustring" where
  "ustr s = map of_char s"

text \<open>
  White space as \<^verbatim>\<open>str.strip\<close> and \<^verbatim>\<open>str.split\<close> see it, that is \<^verbatim>\<open>str.isspace\<close>: the
  code points U+0009 to U+000D, U+001C to U+0020, U+0085, U+00A0, U+1680, U+2000 to
  U+200A, U+2028, U+2029, U+202F, U+205F and U+3000.
\<close>

definition is_space :: "codepoint \<Rightarrow> bool" where
  "is_space c \<longleftrightarrow>
     (9 \<le> c \<and> c \<le> 13) \<or> (28 \<le> c \<and> c \<le> 32) \<or> c = 133 \<or> c = 160 \<or> c = 5760 \<or>
     (8192 \<le> c \<and> c \<le> 8202) \<or> c = 8232 \<or> c = 8233 \<or> c = 8239 \<or> c = 8287 \<or> c = 12288"

text \<open>
  \<^verbatim>\<open>str.lower\<close> on text of ASCII code points. Beyond ASCII \<^verbatim>\<open>str.lower\<close> follows the Unicode
  tables of the interpreter; the bot's surroundings below carry the function as a whole.
\<close>

definition ascii_lower :: "ustring \<Rightarrow> ustring" where
  "ascii_lower s = map (\<lambda>c. if 65 \<le> c \<and> c \<le> 90 then c + 32 else c) s"

text \<open>\<^verbatim>\<open>s.strip()\<close>.\<close>

definition strip :: "ustring \<Rightarrow> ustring" where
  "strip s = rev (dropWhile is_space (rev (dropWhile is_space s)))"

text \<open>\<^verbatim>\<open>s.startswith(p)\<close>.\<close>

definition startswith :: "ustring \<Rightarrow> ustring \<Rightarrow> bool" where
  "startswith s p \<longleftrightarrow> take (length p) s = p"

text \<open>\<^verbatim>\<open>s.split(maxsplit=1)\<close>: no, one or two parts; the second part keeps its tail.\<close>

definition split_once :: "ustring \<Rightarrow> ustring list" where
  "split_once s =
     (let s1 = dropWhile is_space s
      in if s1 = [] then []
         else
           let head = takeWhile (\<lambda>c. \<not> is_space c) s1;
               rest = dropWhile is_space (dropWhile (\<lambda>c. \<not> is_space c) s1)
           in if rest = [] then [head] else [head, rest])"

text \<open>\<^verbatim>\<open>s.split()\<close>: the maximal runs of non-whitespace. \<open>cur\<close> is the run being read, reversed.\<close>

fun split_words :: "ustring \<Rightarrow> ustring \<Rightarrow> ustring list" where
  "split_words cur [] = (if cur = [] then [] else [rev cur])"
| "split_words cur (c # cs) =
     (if is_space c
      then (if cur = [] then split_words [] cs else rev cur # split_words [] cs)
      else split_words (c # cur) cs)"

definition split_all :: "ustring \<Rightarrow> ustring list" where
  "split_all s = split_words [] s"

text \<open>\<^verbatim>\<open>os.path.join\<close> of two components on a POSIX system, for strings of code points.\<close>

definition upath_join :: "ustring \<Rightarrow> ustring \<Rightarrow> ustring" where
  "upath_join a b =
     (if b \<noteq> [] \<and> hd b = 47 then b
      else if a = [] \<or> last a = 47 then a @ b
      else a @ [47] @ b)"

text \<open>Truthiness of a value that is None or a string (of characters or of code points).\<close>

definition truthy :: "'a list option \<Rightarrow> bool" where
  "truthy r = (case r of None \<Rightarrow> False | Some s \<Rightarrow> s \<noteq> [])"

subsection \<open>Messages, state, surroundings\<close>

text \<open>
  One element of a message's \<^verbatim>\<open>photo\<close> list, and the fields of a message that
  \<^verbatim>\<open>_handle_update\<close> reads, each with the default of its \<^verbatim>\<open>get\<close>: the chat id as a string
  (empty when absent), the text, the caption, and the photo list (empty when absent; None
  and the empty list are both falsy). An update without a message is the message with all
  defaults.
\<close>

record photo_size =
  file_id :: ustring
  file_size :: "nat option"

record message =
  msg_chat_id :: ustring
  msg_text :: ustring
  msg_caption :: ustring
  msg_photo :: "photo_size list"

text \<open>The bot's fields; a callback is represented by whether it is set.\<close>

record telegram_bot =
  token :: ustring
  chat_id :: ustring
  enabled :: bool
  running :: bool
  surveillance_active :: bool
  pending_add_name :: "ustring option"
  last_update_id :: nat
  on_start :: bool
  on_stop :: bool
  on_add_face :: bool
  on_record_start :: bool
  on_record_stop :: bool
  on_record_continue :: bool
  on_snap :: bool
  get_status :: bool
  get_recordings :: bool

text \<open>\<^verbatim>\<open>TelegramBot.__init__\<close>.\<close>

definition bot_init :: "ustring \<Rightarrow> ustring \<Rightarrow> telegram_bot" where
  "bot_init tok chat =
     \<lparr>token = tok, chat_id = chat, enabled = (tok \<noteq> [] \<and> chat \<noteq> []), running = False,
      surveillance_active = True, pending_add_name = None, last_update_id = 0,
      on_start = False, on_stop = False, on_add_face = False, on_record_start = False,
      on_record_stop = False, on_record_continue = False, on_snap = False,
      get_status = False, get_recordings = False\<rparr>"

text \<open>\<^verbatim>\<open>SecuritySystem._setup_bot_callbacks\<close> (main.py): the callbacks it sets.\<close>

definition setup_bot_callbacks :: "telegram_bot \<Rightarrow> telegram_bot" where
  "setup_bot_callbacks bt =
     bt\<lparr>on_start := True, on_stop := True, on_add_face := True, on_record_start := True,
        on_record_stop := True, on_record_continue := True, on_snap := True,
        get_status := True, get_recordings := True\<rparr>"

text \<open>
  The answer of the \<^verbatim>\<open>getFile\<close> request: the request or the decoding of its reply
  raises, or the reply carries a file path, or none.
\<close>

datatype file_lookup = RequestFailed | NoFilePath | FilePath ustring

text \<open>
  What the callbacks and the outside world answer while one update is handled: the
  results of the recording and snapshot callbacks (paths built by this program), the
  status text, the recordings, the result of \<^verbatim>\<open>_list_known_faces\<close> and of \<^verbatim>\<open>_remove_face\<close>,
  the directory of known faces,
  the \<^verbatim>\<open>getFile\<close> answer for a file id, the downloaded content for a file path (None
  when the download raises), whether creating the directory and opening and writing the
  file at a path succeeds (otherwise \<^verbatim>\<open>os.makedirs\<close>, \<^verbatim>\<open>open\<close> or \<^verbatim>\<open>write\<close> raises, as \<^verbatim>\<open>open\<close>
  does for a name with a slash whose directory does not exist), and \<^verbatim>\<open>str.lower\<close>.
\<close>

record bot_env =
  record_start_result :: "string option"
  record_stop_result :: "string option"
  snap_result :: "string option"
  status_text :: string
  recordings :: "(string \<times> real) list"
  known_faces :: "string list"
  remove_face_ok :: "ustring \<Rightarrow> bool"
  known_dir :: ustring
  get_file :: "ustring \<Rightarrow> file_lookup"
  download :: "ustring \<Rightarrow> ustring option"
  save_ok :: "ustring \<Rightarrow> bool"
  str_lower :: "ustring \<Rightarrow> ustring"

text \<open>The texts the bot sends, by kind and parameters.\<close>

datatype reply =
    SurveillanceStarted
  | SurveillanceStopped
  | StatusMsg bool string
  | KnownFaces "string list"
  | NoKnownFaces
  | AddUsage
  | SendPhotoFor ustring
  | RemoveUsage
  | Removed ustring
  | NotFound ustring
  | RecordingStarted string
  | AlreadyRecording
  | RecordingNotAvailable
  | RecordingStopped string
  | NotRecordingWarning
  | WillContinue
  | NotRecording
  | RecordingsList "(string \<times> real) list"
  | NoRecordings
  | NoFrame
  | SnapNotAvailable
  | Help
  | UnknownCommand
  | DownloadFailed
  | Added ustring

text \<open>What the bot does to its surroundings while handling an update.\<close>

datatype bot_effect =
    Reply reply
  | AlertPhoto string
  | CallOnStart
  | CallOnStop
  | CallOnAddFace ustring ustring
  | CallOnRecordStart
  | CallOnRecordStop
  | CallOnRecordContinue
  | CallOnSnap
  | CallGetStatus
  | CallGetRecordings
  | RemoveFace ustring
  | GetFile ustring
  | Download ustring
  | SaveFace ustring ustring

text \<open>
  The exceptions that leave \<^verbatim>\<open>_handle_update\<close>: IndexError of \<^verbatim>\<open>parts[0]\<close>, ValueError of
  \<^verbatim>\<open>max\<close> on an empty list, the exception of a failed request, and the exception of a
  failed save (an OSError such as FileNotFoundError, or the ValueError of a file name
  with a NUL character).
\<close>

datatype py_exception = IndexError | ValueError | RequestException | SaveError

datatype bot_result = Done | Raised py_exception

text \<open>
  \<^verbatim>\<open>send_message\<close> and \<^verbatim>\<open>send_alert\<close>: nothing is sent by a bot that is not enabled.
  \<open>AlertPhoto\<close> stands for the alert with its image path, which goes out as a photo when
  the file exists and as a plain message otherwise; a failed request is swallowed.
\<close>

definition send_message :: "telegram_bot \<Rightarrow> reply \<Rightarrow> bot_effect list" where
  "send_message bt r = (if enabled bt then [Reply r] else [])"

definition send_alert :: "telegram_bot \<Rightarrow> string \<Rightarrow> bot_effect list" where
  "send_alert bt image_path = (if enabled bt then [AlertPhoto image_path] else [])"

subsection \<open>Commands\<close>

text \<open>The branches of \<^verbatim>\<open>_handle_command\<close>, one definition for each command.\<close>

definition cmd_start :: "telegram_bot \<Rightarrow> telegram_bot \<times> bot_effect list" where
  "cmd_start bt =
     (bt\<lparr>surveillance_active := True\<rparr>,
      (if on_start bt then [CallOnStart] else []) @ send_message bt SurveillanceStarted)"

definition cmd_stop :: "telegram_bot \<Rightarrow> telegram_bot \<times> bot_effect list" where
  "cmd_stop bt =
     (bt\<lparr>surveillance_active := False\<rparr>,
      (if on_stop bt then [CallOnStop] else []) @ send_message bt SurveillanceStopped)"

definition cmd_status :: "bot_env \<Rightarrow> telegram_bot \<Rightarrow> telegram_bot \<times> bot_effect list" where
  "cmd_status env bt =
     (bt,
      (if get_status bt then [CallGetStatus] else []) @
      send_message bt
        (StatusMsg (surveillance_active bt) (if get_status bt then status_text env else '''')))"

definition cmd_list :: "bot_env \<Rightarrow> telegram_bot \<Rightarrow> telegram_bot \<times> bot_effect list" where
  "cmd_list env bt =
     (bt,
      send_message bt
        (if known_faces env \<noteq> [] then KnownFaces (known_faces env) else NoKnownFaces))"

definition cmd_add :: "telegram_bot \<Rightarrow> ustring \<Rightarrow> telegram_bot \<times> bot_effect list" where
  "cmd_add bt arg =
     (if arg = [] then (bt, send_message bt AddUsage)
      else (bt\<lparr>pending_add_name := Some arg\<rparr>, send_message bt (SendPhotoFor arg)))"

definition cmd_remove :: "bot_env \<Rightarrow> telegram_bot \<Rightarrow> ustring \<Rightarrow> telegram_bot \<times> bot_effect list" where
  "cmd_remove env bt arg =
     (if arg = [] then (bt, send_message bt RemoveUsage)
      else
        (bt,
         RemoveFace arg #
         send_message bt (if remove_face_ok env arg then Removed arg else NotFound arg)))"

definition cmd_record :: "bot_env \<Rightarrow> telegram_bot \<Rightarrow> telegram_bot \<times> bot_effect list" where
  "cmd_record env bt =
     (if on_record_start bt
      then
        (bt,
         CallOnRecordStart #
         send_message bt
           (if truthy (record_start_result env)
            then RecordingStarted (the (record_start_result env))
            else AlreadyRecording))
      else (bt, send_message bt RecordingNotAvailable))"

definition cmd_stoprecord :: "bot_env \<Rightarrow> telegram_bot \<Rightarrow> telegram_bot \<times> bot_effect list" where
  "cmd_stoprecord env bt =
     (if on_record_stop bt
      then
        (bt,
         CallOnRecordStop #
         send_message bt
           (if truthy (record_stop_result env)
            then RecordingStopped (the (record_stop_result env))
            else NotRecordingWarning))
      else (bt, send_message bt RecordingNotAvailable))"

definition cmd_continue :: "telegram_bot \<Rightarrow> telegram_bot \<times> bot_effect list" where
  "cmd_continue bt =
     (if on_record_continue bt
      then (bt, CallOnRecordContinue # send_message bt WillContinue)
      else (bt, send_message bt NotRecording))"

definition cmd_recordings :: "bot_env \<Rightarrow> telegram_bot \<Rightarrow> telegram_bot \<times> bot_effect list" where
  "cmd_recordings env bt =
     (if get_recordings bt
      then
        (bt,
         CallGetRecordings #
         send_message bt
           (if recordings env \<noteq> [] then RecordingsList (take 10 (recordings env))
            else NoRecordings))
      else (bt, send_message bt RecordingNotAvailable))"

definition cmd_snap :: "bot_env \<Rightarrow> telegram_bot \<Rightarrow> telegram_bot \<times> bot_effect list" where
  "cmd_snap env bt =
     (if on_snap bt
      then
        (bt,
         CallOnSnap #
         (if truthy (snap_result env) then send_alert bt (the (snap_result env))
          else send_message bt NoFrame))
      else (bt, send_message bt SnapNotAvailable))"

text \<open>
  \<^verbatim>\<open>_handle_command\<close>: the command is the first part of the text, lower-cased and cut at
  the first \<^verbatim>\<open>@\<close> (code point 64); the argument is the second part or the empty string. A text without
  any part makes \<^verbatim>\<open>parts[0]\<close> raise IndexError.
\<close>

definition run_command ::
  "bot_env \<Rightarrow> telegram_bot \<Rightarrow> ustring \<Rightarrow> ustring \<Rightarrow> telegram_bot \<times> bot_effect list" where
  "run_command env bt cmd arg =
     (if cmd = ustr ''/start'' then cmd_start bt
      else if cmd = ustr ''/stop'' then cmd_stop bt
      else if cmd = ustr ''/status'' then cmd_status env bt
      else if cmd = ustr ''/list'' then cmd_list env bt
      else if cmd = ustr ''/add'' then cmd_add bt arg
      else if cmd = ustr ''/remove'' then cmd_remove env bt arg
      else if cmd = ustr ''/record'' then cmd_record env bt
      else if cmd = ustr ''/stoprecord'' then cmd_stoprecord env bt
      else if cmd = ustr ''/continue'' then cmd_continue bt
      else if cmd = ustr ''/recordings'' then cmd_recordings env bt
      else if cmd = ustr ''/snap'' then cmd_snap env bt
      else if cmd = ustr ''/help'' then (bt, send_message bt Help)
      else (bt, send_message bt UnknownCommand))"

definition handle_command ::
  "bot_env \<Rightarrow> telegram_bot \<Rightarrow> ustring \<Rightarrow> bot_result \<times> telegram_bot \<times> bot_effect list" where
  "handle_command env bt txt =
     (case split_once txt of
        [] \<Rightarrow> (Raised IndexError, bt, [])
      | p # ps \<Rightarrow>
          let cmd = takeWhile (\<lambda>c. c \<noteq> 64) (str_lower env p);
              arg = (case ps of [] \<Rightarrow> [] | a # others \<Rightarrow> a)
          in (case run_command env bt cmd arg of (bt1, es) \<Rightarrow> (Done, bt1, es)))"

subsection \<open>Photos and updates\<close>

text \<open>
  \<^verbatim>\<open>max(photos, key=lambda p: p.get("file_size", 0))\<close>: the first photo of the largest
  size; ValueError on an empty list.
\<close>

definition size_key :: "photo_size \<Rightarrow> nat" where
  "size_key p = (case file_size p of None \<Rightarrow> 0 | Some n \<Rightarrow> n)"

fun largest_from :: "photo_size \<Rightarrow> photo_size list \<Rightarrow> photo_size" where
  "largest_from best [] = best"
| "largest_from best (p # ps) =
     (if size_key p > size_key best then largest_from p ps else largest_from best ps)"

definition largest_photo :: "photo_size list \<Rightarrow> photo_size option" where
  "largest_photo photos = (case photos of [] \<Rightarrow> None | p # ps \<Rightarrow> Some (largest_from p ps))"

text \<open>
  \<^verbatim>\<open>_handle_add_photo\<close>. The name is read and the slot cleared first; then the file is
  looked up, downloaded and saved under the name, the confirmation is sent and the
  \<^verbatim>\<open>on_add_face\<close> callback invoked. A request that raises, or a file that cannot be
  written, ends the call with the state and the effects reached so far. The name is
  formatted into the file name, so an absent name reads \<^verbatim>\<open>None\<close>.
\<close>

definition handle_add_photo ::
  "bot_env \<Rightarrow> telegram_bot \<Rightarrow> photo_size list \<Rightarrow> bot_result \<times> telegram_bot \<times> bot_effect list" where
  "handle_add_photo env bt photos =
     (let nm = (case pending_add_name bt of None \<Rightarrow> ustr ''None'' | Some n \<Rightarrow> n);
          bt1 = bt\<lparr>pending_add_name := None\<rparr>
      in case largest_photo photos of
           None \<Rightarrow> (Raised ValueError, bt1, [])
         | Some photo \<Rightarrow>
             (case get_file env (file_id photo) of
                RequestFailed \<Rightarrow> (Raised RequestException, bt1, [GetFile (file_id photo)])
              | NoFilePath \<Rightarrow>
                  (Done, bt1, GetFile (file_id photo) # send_message bt1 DownloadFailed)
              | FilePath file_path \<Rightarrow>
                  if file_path = []
                  then (Done, bt1, GetFile (file_id photo) # send_message bt1 DownloadFailed)
                  else
                    (case download env file_path of
                       None \<Rightarrow>
                         (Raised RequestException, bt1,
                          [GetFile (file_id photo), Download file_path])
                     | Some img_data \<Rightarrow>
                         let save_path = upath_join (known_dir env) (nm @ ustr ''.jpg'')
                         in if \<not> save_ok env save_path
                            then (Raised SaveError, bt1,
                                  [GetFile (file_id photo), Download file_path])
                            else
                              (Done, bt1,
                               [GetFile (file_id photo), Download file_path,
                                SaveFace save_path img_data] @
                               send_message bt1 (Added nm) @
                               (if on_add_face bt1 then [CallOnAddFace nm save_path] else [])))))"

text \<open>
  The name given in a caption, \<^verbatim>\<open>caption.split(maxsplit=1)[1] if len(caption.split()) > 1
  else ""\<close>.
\<close>

definition inline_name :: "ustring \<Rightarrow> ustring" where
  "inline_name caption =
     (if length (split_all caption) > 1
      then (case split_once caption of [p, a] \<Rightarrow> a | parts \<Rightarrow> [])
      else [])"

text \<open>\<^verbatim>\<open>_handle_update\<close>, for the message of the update.\<close>

definition handle_update ::
  "bot_env \<Rightarrow> telegram_bot \<Rightarrow> message \<Rightarrow> bot_result \<times> telegram_bot \<times> bot_effect list" where
  "handle_update env bt msg =
     (if msg_chat_id msg \<noteq> chat_id bt then (Done, bt, [])
      else
        let txt = strip (msg_text msg);
            caption = strip (msg_caption msg);
            photo = msg_photo msg
        in if photo \<noteq> [] \<and> startswith caption (ustr ''/add '') \<and> inline_name caption \<noteq> []
           then handle_add_photo env (bt\<lparr>pending_add_name := Some (inline_name caption)\<rparr>) photo
           else if photo \<noteq> [] \<and> truthy (pending_add_name bt)
           then handle_add_photo env bt photo
           else if startswith txt (ustr ''/'') then handle_command env bt txt
           else if startswith caption (ustr ''/'') then handle_command env bt caption
           else (Done, bt, []))"

text \<open>The effects that register an identity: the saved reference image and the callback.\<close>

fun is_registration :: "bot_effect \<Rightarrow> bool" where
  "is_registration (SaveFace p d) = True"
| "is_registration (CallOnAddFace n p) = True"
| "is_registration e = False"

subsection \<open>Sample inputs\<close>

text \<open>
  A bot wired as \<^verbatim>\<open>SecuritySystem\<close> wires it; surroundings in which the photo download
  and the save succeed, and surroundings in which \<^verbatim>\<open>getFile\<close> answers without a file path
  (the texts of these samples are ASCII, on which \<^verbatim>\<open>str.lower\<close> is \<open>ascii_lower\<close>); and
  messages: from the authorized chat a photo without caption, a photo captioned
  \<^verbatim>\<open>/stop\<close>, a photo captioned \<^verbatim>\<open>/add Bob\<close> and the text \<^verbatim>\<open>/add Alice\<close>, and from another
  chat the text \<^verbatim>\<open>/stop\<close>.
\<close>

definition demo_bot :: telegram_bot where
  "demo_bot = setup_bot_callbacks (bot_init (ustr ''TOKEN'') (ustr ''1527''))"

definition demo_env :: bot_env where
  "demo_env =
     \<lparr>record_start_result = None, record_stop_result = None, snap_result = None,
      status_text = [], recordings = [], known_faces = [], remove_face_ok = (\<lambda>n. False),
      known_dir = ustr ''known_faces'', get_file = (\<lambda>fid. FilePath (ustr ''photos/file_1.jpg'')),
      download = (\<lambda>p. Some (ustr ''JPEG'')), save_ok = (\<lambda>p. True), str_lower = ascii_lower\<rparr>"

definition failing_env :: bot_env where
  "failing_env = demo_env\<lparr>get_file := (\<lambda>fid. NoFilePath)\<rparr>"

definition plain_photo :: message where
  "plain_photo =
     \<lparr>msg_chat_id = ustr ''1527'', msg_text = [], msg_caption = [],
      msg_photo = [\<lparr>file_id = ustr ''F1'', file_size = Some 100\<rparr>]\<rparr>"

definition stop_photo :: message where
  "stop_photo = plain_photo\<lparr>msg_caption := ustr ''/stop''\<rparr>"

definition inline_photo :: message where
  "inline_photo = plain_photo\<lparr>msg_caption := ustr ''/add Bob''\<rparr>"

definition add_alice :: message where
  "add_alice =
     \<lparr>msg_chat_id = ustr ''1527'', msg_text = ustr ''/add Alice'', msg_caption = [], msg_photo = []\<rparr>"

definition stranger_stop :: message where
  "stranger_stop =
     \<lparr>msg_chat_id = ustr ''999'', msg_text = ustr ''/stop'', msg_caption = [], msg_photo = []\<rparr>"

text \<open>
  The download of the largest photo fails: the list is empty, the \<^verbatim>\<open>getFile\<close> request
  raises or gives no file path, or the download request raises.
\<close>

definition download_fails :: "bot_env \<Rightarrow> photo_size list \<Rightarrow> bool" where
  "download_fails env photos =
     (case largest_photo photos of
        None \<Rightarrow> True
      | Some photo \<Rightarrow>
          (case get_file env (file_id photo) of
             RequestFailed \<Rightarrow> True
           | NoFilePath \<Rightarrow> True
           | FilePath file_path \<Rightarrow> file_path = [] \<or> download env file_path = None))"

section \<open>Verification: PersonTracker\<close>

lemma bbox_distance_exact:
  "bbox_distance exact_arith b1 b2 = center_distance b1 b2"
proof -
  obtain a0 a1 a2 a3 where b1: "b1 = (a0, a1, a2, a3)" by (cases b1) auto
  obtain c0 c1 c2 c3 where b2: "b2 = (c0, c1, c2, c3)" by (cases b2) auto
  show ?thesis
    by (simp add: b1 b2 exact_arith_def rounded_arith_def center_distance_def box_center_def
        dist_complex_def cmod_def)
qed

lemma scan_tracked_find:
  "scan_tracked ar tr now b ts =
     (case find (\<lambda>t. bbox_distance ar b (bbox t) < move_threshold tr) ts of
        None \<Rightarrow> NoMatch
      | Some t \<Rightarrow> if now - last_check t > recheck_interval tr then Stale else Fresh)"
  by (induction ts) simp_all

lemma check_boxes_list_ex:
  "check_boxes ar tr now bs =
     list_ex (\<lambda>b. case find (\<lambda>t. bbox_distance ar b (bbox t) < move_threshold tr) (tracked tr) of
                     None \<Rightarrow> True
                   | Some t \<Rightarrow> now - last_check t > recheck_interval tr) bs"
  by (induction bs) (simp_all add: scan_tracked_find split: option.split)

lemma needs_face_check_refines:
  "needs_face_check ar tr now bs = needsRecheck_spec (bbox_distance ar) tr now bs"
  by (simp add: needs_face_check_def needsRecheck_spec_def check_boxes_list_ex)

lemma needs_face_check_euclid:
  "needs_face_check exact_arith tr now bs = needsRecheck_spec center_distance tr now bs"
proof -
  have "bbox_distance exact_arith = center_distance"
    by (intro ext) (rule bbox_distance_exact)
  then show ?thesis by (simp add: needs_face_check_refines)
qed

lemma update_fields [simp]:
  "move_threshold (update tr t0 boxes0 faces0) = move_threshold tr"
  "recheck_interval (update tr t0 boxes0 faces0) = recheck_interval tr"
  "last_person_count (update tr t0 boxes0 faces0) = length boxes0"
  by (simp_all add: update_def)

lemma new_entry_fields [simp]:
  "bbox (new_entry now fs ib) = snd ib" "last_check (new_entry now fs ib) = now"
  by (cases ib; simp)+

lemma tracked_update_bbox:
  "map bbox (tracked (update tr t0 boxes0 faces0)) = boxes0"
proof -
  have "map bbox (map (new_entry t0 faces0) (enumerate 0 boxes0)) = map snd (enumerate 0 boxes0)"
    by (simp add: comp_def)
  then show ?thesis by (simp add: update_def)
qed

lemma tracked_update_last_check:
  "t \<in> set (tracked (update tr t0 boxes0 faces0)) \<Longrightarrow> last_check t = t0"
  by (auto simp: update_def)

lemma scan_tracked_cases:
  "scan_tracked ar tr now b ts = NoMatch \<longleftrightarrow>
     (\<forall>t\<in>set ts. \<not> bbox_distance ar b (bbox t) < move_threshold tr)"
  by (induction ts) auto

lemma scan_tracked_Stale:
  "scan_tracked ar tr now b ts = Stale \<Longrightarrow> \<exists>t\<in>set ts. now - last_check t > recheck_interval tr"
  by (induction ts) (auto split: if_splits)

lemma scan_tracked_Fresh:
  "scan_tracked ar tr now b ts = Fresh \<Longrightarrow> \<exists>t\<in>set ts. \<not> now - last_check t > recheck_interval tr"
  by (induction ts) (auto split: if_splits)

lemma scan_steady:
  assumes "b0 \<in> set boxes0" "bbox_distance ar b b0 < move_threshold tr"
  shows "scan_tracked ar (update tr t0 boxes0 faces0) now b (tracked (update tr t0 boxes0 faces0))
           = (if now - t0 > recheck_interval tr then Stale else Fresh)"
proof -
  let ?u = "update tr t0 boxes0 faces0"
  from assms(1) have "b0 \<in> set (map bbox (tracked ?u))" by (simp only: tracked_update_bbox)
  then obtain t where t: "t \<in> set (tracked ?u)" "bbox t = b0" by auto
  with assms(2) have nm: "scan_tracked ar ?u now b (tracked ?u) \<noteq> NoMatch"
    by (auto simp: scan_tracked_cases)
  show ?thesis
  proof (cases "scan_tracked ar ?u now b (tracked ?u)")
    case Stale
    from scan_tracked_Stale[OF this] show ?thesis using Stale
      by (auto simp: tracked_update_last_check)
  next
    case Fresh
    from scan_tracked_Fresh[OF this] show ?thesis using Fresh
      by (auto simp: tracked_update_last_check)
  next
    case NoMatch with nm show ?thesis by simp
  qed
qed

lemma check_boxes_steady:
  assumes "list_all (\<lambda>b. list_ex (\<lambda>b0. bbox_distance ar b b0 < move_threshold tr) boxes0) bs"
    and "now - t0 \<le> recheck_interval tr"
  shows "\<not> check_boxes ar (update tr t0 boxes0 faces0) now bs"
  using assms
proof (induction bs)
  case Nil
  then show ?case by simp
next
  case (Cons b bs)
  then obtain b0 where "b0 \<in> set boxes0" "bbox_distance ar b b0 < move_threshold tr"
    by (auto simp: list_ex_iff)
  with Cons show ?case using scan_steady[of b0 boxes0 ar b tr t0 faces0 now] by simp
qed

lemma check_boxes_elapsed:
  assumes "list_all (\<lambda>b. list_ex (\<lambda>b0. bbox_distance ar b b0 < move_threshold tr) boxes0) bs"
    and "now - t0 > recheck_interval tr" and "bs \<noteq> []"
  shows "check_boxes ar (update tr t0 boxes0 faces0) now bs"
proof (cases bs)
  case Nil
  with assms(3) show ?thesis by simp
next
  case (Cons b rest)
  with assms(1) obtain b0 where "b0 \<in> set boxes0" "bbox_distance ar b b0 < move_threshold tr"
    by (auto simp: list_ex_iff)
  with Cons assms(2) show ?thesis using scan_steady[of b0 boxes0 ar b tr t0 faces0 now] by simp
qed

lemma needs_face_check_steady:
  assumes "steady_frame ar (move_threshold tr) (recheck_interval tr) t0 boxes0 (now, nu, boxes, faces)"
  shows "\<not> needs_face_check ar (update tr t0 boxes0 faces0) now boxes"
  using assms check_boxes_steady[of ar tr boxes0 boxes now t0 faces0]
  by (auto simp: steady_frame_def needs_face_check_def)

lemma run_frames_steady:
  "list_all (steady_frame ar (move_threshold tr) (recheck_interval tr) t0 boxes0) frames \<Longrightarrow>
   run_frames ar (update tr t0 boxes0 faces0) frames
     = (replicate (length frames) False, update tr t0 boxes0 faces0)"
proof (induction frames)
  case Nil
  then show ?case by simp
next
  case (Cons f fs)
  obtain now nu boxes faces where f: "f = (now, nu, boxes, faces)" by (cases f) auto
  with Cons.prems have "\<not> needs_face_check ar (update tr t0 boxes0 faces0) now boxes"
    using needs_face_check_steady[of ar tr t0 boxes0 now nu boxes faces faces0] by simp
  with Cons f show ?case by simp
qed

lemma needs_face_check_elapsed:
  assumes "length boxes = length boxes0" "boxes \<noteq> []"
    "list_all (\<lambda>b. list_ex (\<lambda>b0. bbox_distance ar b b0 < move_threshold tr) boxes0) boxes"
    "now - t0 > recheck_interval tr"
  shows "needs_face_check ar (update tr t0 boxes0 faces0) now boxes"
  using assms check_boxes_elapsed[of ar tr boxes0 boxes now t0 faces0]
  by (auto simp: needs_face_check_def)

lemma sqrt_25: "sqrt 25 = 5"
proof -
  have "sqrt 25 = sqrt (5\<^sup>2)" by simp
  also have "\<dots> = 5" by (simp only: real_sqrt_abs abs_numeral)
  finally show ?thesis .
qed

lemma sqrt_900: "sqrt 900 = 30"
proof -
  have "sqrt 900 = sqrt (30\<^sup>2)" by simp
  also have "\<dots> = 30" by (simp only: real_sqrt_abs abs_numeral)
  finally show ?thesis .
qed

lemma sqrt_3600: "sqrt 3600 = 60"
proof -
  have "sqrt 3600 = sqrt (60\<^sup>2)" by simp
  also have "\<dots> = 60" by (simp only: real_sqrt_abs abs_numeral)
  finally show ?thesis .
qed

text \<open>
  Claim C1, as stated, fails in its last part. A person is cached at the check at time 100;
  in the next two frames the number of boxes stays 1 and the center moves by 30, less
  than the threshold 50, from one frame to the next, all within the recheck interval of
  5 seconds. The first frame is answered False and leaves the cache as it is, so the
  second frame is 60 away from the cached center and is answered True. (The numbers are
  small integers, on which floating-point arithmetic is exact.)
\<close>

theorem drift_counterexample:
  "bbox_distance exact_arith (30, 0, 40, 10) (0, 0, 10, 10) = 30 \<and>
   bbox_distance exact_arith (60, 0, 70, 10) (30, 0, 40, 10) = 30 \<and>
   30 < move_threshold (tracker_init 50 5) \<and>
   102 - 100 \<le> recheck_interval (tracker_init 50 5) \<and>
   run_frames exact_arith (update (tracker_init 50 5) 100 [(0, 0, 10, 10)] [])
     [(101, 101, [(30, 0, 40, 10)], []), (102, 102, [(60, 0, 70, 10)], [])]
     = ([False, True], update (tracker_init 50 5) 102 [(60, 0, 70, 10)] [])"
  by (simp add: exact_arith_def rounded_arith_def tracker_init_def update_def
      needs_face_check_def sqrt_900 sqrt_3600)

text \<open>
  Claim C1, amended. \<open>bbox_distance\<close> is, in arithmetic without rounding, the Euclidean
  distance between the centers of the two boxes. With the distance as it is computed (in
  whatever arithmetic), \<open>needs_face_check\<close> is exactly the decision of the specification:
  true when the number of boxes differs from the previous count, otherwise false on an
  empty list, otherwise true exactly when some current box has no cached slot within the
  move threshold or the first such slot (greedy first match) was last checked more than
  the recheck interval ago. In particular, after a check at \<open>tc\<close> that cached the boxes
  \<open>cached\<close>,
  every frame of a sequence with the same number of boxes, each center less than the
  threshold away from the center of some box cached at that check (the displacement is
  measured from the cached position, not from the previous frame), and read no later than
  the recheck interval after \<open>tc\<close>, is answered False and leaves the tracker as it is;
  once the interval has elapsed such a non-empty frame is answered True.
\<close>

theorem needs_face_check_decision:
  "bbox_distance exact_arith b1 b2 = center_distance b1 b2 \<and>
   needs_face_check ar tr now boxes = needsRecheck_spec (bbox_distance ar) tr now boxes \<and>
   needs_face_check exact_arith tr now boxes = needsRecheck_spec center_distance tr now boxes \<and>
   (list_all (steady_frame ar (move_threshold tr) (recheck_interval tr) tc cached) frames \<longrightarrow>
      run_frames ar (update tr tc cached fc) frames
        = (replicate (length frames) False, update tr tc cached fc)) \<and>
   (length later_boxes = length cached \<and> later_boxes \<noteq> [] \<and>
    list_all (\<lambda>b. list_ex (\<lambda>b0. bbox_distance ar b b0 < move_threshold tr) cached) later_boxes \<and>
    later - tc > recheck_interval tr \<longrightarrow>
      needs_face_check ar (update tr tc cached fc) later later_boxes)"
proof (intro conjI impI)
  show "bbox_distance exact_arith b1 b2 = center_distance b1 b2"
    by (rule bbox_distance_exact)
  show "needs_face_check ar tr now boxes = needsRecheck_spec (bbox_distance ar) tr now boxes"
    by (rule needs_face_check_refines)
  show "needs_face_check exact_arith tr now boxes = needsRecheck_spec center_distance tr now boxes"
    by (rule needs_face_check_euclid)
  show "run_frames ar (update tr tc cached fc) frames
          = (replicate (length frames) False, update tr tc cached fc)"
    if "list_all (steady_frame ar (move_threshold tr) (recheck_interval tr) tc cached) frames"
    using that by (rule run_frames_steady)
  show "needs_face_check ar (update tr tc cached fc) later later_boxes"
    if "length later_boxes = length cached \<and> later_boxes \<noteq> [] \<and>
        list_all (\<lambda>b. list_ex (\<lambda>b0. bbox_distance ar b b0 < move_threshold tr) cached) later_boxes \<and>
        later - tc > recheck_interval tr"
    using that needs_face_check_elapsed[of later_boxes cached ar tr later tc fc] by blast
qed

theorem needs_face_check_decision_witness:
  "list_all (steady_frame exact_arith 50 5 100 [(0, 0, 10, 10), (200, 0, 210, 10)])
     [(101, 101, [(203, 4, 213, 14), (3, 4, 13, 14)], []),
      (104, 104, [(0, 0, 10, 10), (200, 0, 210, 10)], [])] \<and>
   run_frames exact_arith (update (tracker_init 50 5) 100 [(0, 0, 10, 10), (200, 0, 210, 10)] [])
     [(101, 101, [(203, 4, 213, 14), (3, 4, 13, 14)], []),
      (104, 104, [(0, 0, 10, 10), (200, 0, 210, 10)], [])]
     = ([False, False], update (tracker_init 50 5) 100 [(0, 0, 10, 10), (200, 0, 210, 10)] []) \<and>
   needs_face_check exact_arith
     (update (tracker_init 50 5) 100 [(0, 0, 10, 10), (200, 0, 210, 10)] []) 106
     [(203, 4, 213, 14), (3, 4, 13, 14)] \<and>
   bbox_distance exact_arith (203, 4, 213, 14) (200, 0, 210, 10) = 5"
proof -
  let ?tr = "tracker_init 50 5"
  let ?boxes0 = "[(0, 0, 10, 10), (200, 0, 210, 10)] :: bbox list"
  let ?moved = "[(203, 4, 213, 14), (3, 4, 13, 14)] :: bbox list"
  let ?frames = "[(101, 101, ?moved, []), (104, 104, ?boxes0, [])] :: frame_input list"
  have d: "bbox_distance exact_arith (203, 4, 213, 14) (200, 0, 210, 10) = 5"
    "bbox_distance exact_arith (3, 4, 13, 14) (0, 0, 10, 10) = 5"
    "bbox_distance exact_arith (0, 0, 10, 10) (0, 0, 10, 10) = 0"
    "bbox_distance exact_arith (200, 0, 210, 10) (200, 0, 210, 10) = 0"
    by (simp_all add: exact_arith_def rounded_arith_def sqrt_25)
  have near: "list_all (\<lambda>b. list_ex (\<lambda>b0. bbox_distance exact_arith b b0 < 50) ?boxes0) ?moved"
    "list_all (\<lambda>b. list_ex (\<lambda>b0. bbox_distance exact_arith b b0 < 50) ?boxes0) ?boxes0"
    by (simp_all add: d del: bbox_distance.simps)
  have steady: "list_all (steady_frame exact_arith 50 5 100 ?boxes0) ?frames"
    using near by (simp add: steady_frame_def)
  have th: "move_threshold ?tr = 50" "recheck_interval ?tr = 5"
    by (simp_all add: tracker_init_def)
  from needs_face_check_decision [where ar = exact_arith and tr = ?tr and tc = 100
      and cached = ?boxes0 and frames = ?frames and fc = "[]" and later_boxes = ?moved
      and later = 106]
    steady near(1) th
  have "run_frames exact_arith (update ?tr 100 ?boxes0 []) ?frames
          = ([False, False], update ?tr 100 ?boxes0 []) \<and>
        needs_face_check exact_arith (update ?tr 100 ?boxes0 []) 106 ?moved"
    by (simp del: bbox_distance.simps)
  with steady d(1) show ?thesis by blast
qed

text \<open>
  Rounding matters at the threshold. With results rounded to multiples of 1/131072 (the
  spacing of float32 numbers between 64 and 128), a box whose left edge is the float32
  number 50 - 1/262144 has computed distance exactly 50 from the cached box, so it is not
  matched and the check answers True, while its exact distance is below 50 and exact
  arithmetic answers False.
\<close>

lemma rounding_at_threshold:
  "bbox_distance (rounded_arith (\<lambda>x. of_int (round (x * 131072)) / 131072))
     (50 - 1 / 262144, 0, 60, 10) (0, 0, 10, 10) = 50 \<and>
   needs_face_check (rounded_arith (\<lambda>x. of_int (round (x * 131072)) / 131072))
     (update (tracker_init 50 5) 100 [(0, 0, 10, 10)] []) 101 [(50 - 1 / 262144, 0, 60, 10)] \<and>
   bbox_distance exact_arith (50 - 1 / 262144, 0, 60, 10) (0, 0, 10, 10) < 50 \<and>
   \<not> needs_face_check exact_arith
     (update (tracker_init 50 5) 100 [(0, 0, 10, 10)] []) 101 [(50 - 1 / 262144, 0, 60, 10)]"
proof -
  let ?rnd = "\<lambda>x::real. (of_int (round (x * 131072)) / 131072 :: real)"
  have r1: "?rnd (50 - 1 / 262144 + 60) = 110" by (simp add: round_def)
  have r2: "?rnd (110 / 2) = 55" "?rnd (0 + 10) = 10" "?rnd (10 / 2) = 5" "?rnd (55 - 5) = 50"
    "?rnd (5 - 5) = 0" "?rnd (50\<^sup>2) = 2500" "?rnd (0\<^sup>2) = 0" "?rnd (2500 + 0) = 2500"
    by (simp_all add: round_def)
  have s: "sqrt 2500 = 50"
  proof -
    have "sqrt 2500 = sqrt (50\<^sup>2)" by simp
    also have "\<dots> = 50" by (simp only: real_sqrt_abs abs_numeral)
    finally show ?thesis .
  qed
  have r3: "?rnd 50 = 50" by (simp add: round_def)
  have d: "bbox_distance (rounded_arith ?rnd) (50 - 1 / 262144, 0, 60, 10) (0, 0, 10, 10) = 50"
    by (simp only: bbox_distance.simps rounded_arith_def arith.simps Let_def r1 r2 s r3)
  have e: "bbox_distance exact_arith (50 - 1 / 262144, 0, 60, 10) (0, 0, 10, 10) < 50"
  proof -
    have "bbox_distance exact_arith (50 - 1 / 262144, 0, 60, 10) (0, 0, 10, 10)
            = sqrt ((50 - 1 / 524288)\<^sup>2)"
      by (simp add: exact_arith_def rounded_arith_def)
    also have "\<dots> = 50 - 1 / 524288" by (simp only: real_sqrt_abs)
    finally show ?thesis by simp
  qed
  have n1: "needs_face_check (rounded_arith ?rnd)
     (update (tracker_init 50 5) 100 [(0, 0, 10, 10)] []) 101 [(50 - 1 / 262144, 0, 60, 10)]"
    using d by (simp add: needs_face_check_def update_def tracker_init_def del: bbox_distance.simps)
  have n2: "\<not> needs_face_check exact_arith
     (update (tracker_init 50 5) 100 [(0, 0, 10, 10)] []) 101 [(50 - 1 / 262144, 0, 60, 10)]"
    using e by (simp add: needs_face_check_def update_def tracker_init_def del: bbox_distance.simps)
  from d n1 e n2 show ?thesis by blast
qed

section \<open>Verification: ActivityLogger\<close>

lemma log_detection_suppressed:
  "\<not> should_log lg c nm \<Longrightarrow> log_detection env lg c n nm = (False, lg, [])"
  by (simp add: log_detection_def)

lemma log_detection_logged:
  assumes "should_log lg c nm"
  shows "fst (log_detection env lg c n nm) = True"
    and "fst (snd (log_detection env lg c n nm)) = lg\<lparr>last_seen := (last_seen lg)(nm \<mapsto> n)\<rparr>"
    and "rows_of (snd (snd (log_detection env lg c n nm)))
           = [RowAppended n nm (if nm = ''Unknown'' then intruder_path env n else '''')]"
    and "alerts_of (snd (snd (log_detection env lg c n nm)))
           = (if nm = ''Unknown'' \<and> notifier lg
              then [AlertSent n (intruder_path env n) (send_alert_answer env n (intruder_path env n))]
              else [])"
    and "hd (snd (snd (log_detection env lg c n nm))) = LastSeenSet nm n"
  using assms by (simp_all add: log_detection_def Let_def rows_of_def alerts_of_def)

lemma get_cooldown_upd [simp]:
  "get_cooldown (lg\<lparr>last_seen := m\<rparr>) nm = get_cooldown lg nm"
  by (simp add: get_cooldown_def)

lemma should_log_after:
  "should_log (lg\<lparr>last_seen := (last_seen lg)(nm \<mapsto> n)\<rparr>) c2 nm \<longleftrightarrow> c2 - n > get_cooldown lg nm"
  by (simp add: should_log_def)

lemma log_detection_cases:
  assumes "log_detection env lg c n nm = (r, lg', es)"
  shows "(r \<longleftrightarrow> should_log lg c nm)"
    and "\<not> r \<Longrightarrow> lg' = lg \<and> es = []"
    and "r \<Longrightarrow> lg' = lg\<lparr>last_seen := (last_seen lg)(nm \<mapsto> n)\<rparr>"
    and "r \<Longrightarrow> rows_of es = [RowAppended n nm (if nm = ''Unknown'' then intruder_path env n else '''')]"
    and "r \<Longrightarrow> alerts_of es = (if nm = ''Unknown'' \<and> notifier lg
              then [AlertSent n (intruder_path env n) (send_alert_answer env n (intruder_path env n))]
              else [])"
    and "length (rows_of es) \<le> 1" and "length (alerts_of es) \<le> 1"
proof -
  show a: "r \<longleftrightarrow> should_log lg c nm"
    using assms log_detection_logged(1)[of lg c nm env n] log_detection_suppressed[of lg c nm env n]
    by (cases "should_log lg c nm") auto
  show b: "\<not> r \<Longrightarrow> lg' = lg \<and> es = []"
    using a assms log_detection_suppressed[of lg c nm env n] by auto
  show "r \<Longrightarrow> lg' = lg\<lparr>last_seen := (last_seen lg)(nm \<mapsto> n)\<rparr>"
    using a assms log_detection_logged(2)[of lg c nm env n] by auto
  show c: "r \<Longrightarrow> rows_of es = [RowAppended n nm (if nm = ''Unknown'' then intruder_path env n else '''')]"
    using a assms log_detection_logged(3)[of lg c nm env n] by auto
  show d: "r \<Longrightarrow> alerts_of es = (if nm = ''Unknown'' \<and> notifier lg
              then [AlertSent n (intruder_path env n) (send_alert_answer env n (intruder_path env n))]
              else [])"
    using a assms log_detection_logged(4)[of lg c nm env n] by auto
  show "length (rows_of es) \<le> 1" using b c by (cases r) (auto simp: rows_of_def)
  show "length (alerts_of es) \<le> 1" using b d by (cases r) (auto simp: alerts_of_def)
qed

lemma rows_of_append [simp]: "rows_of (xs @ ys) = rows_of xs @ rows_of ys"
  by (simp add: rows_of_def)

lemma alerts_of_append [simp]: "alerts_of (xs @ ys) = alerts_of xs @ alerts_of ys"
  by (simp add: alerts_of_def)

lemma rows_of_Nil [simp]: "rows_of [] = []" by (simp add: rows_of_def)
lemma alerts_of_Nil [simp]: "alerts_of [] = []" by (simp add: alerts_of_def)

text \<open>
  Claim C2. For every name, whatever the state: the cooldown of a name is the short
  \<open>unknown_cooldown\<close> for the sentinel \<open>''Unknown''\<close> and the long \<open>known_cooldown\<close> for
  every other name; a name never seen before is logged; two calls for the name of which
  the second checks the clock within the cooldown of the first append at most one row and
  dispatch at most one alert, and when the first was logged the second answers False and
  does nothing (exactly one row); when the first was logged and the second checks the
  clock more than the cooldown later, each appends one row and, for \<open>''Unknown''\<close> with a
  notifier attached, each dispatches one alert.
\<close>

theorem cooldown_gate:
  assumes c1: "log_detection env1 lg c1 n1 nm = (r1, lg1, es1)"
      and c2: "log_detection env2 lg1 c2 n2 nm = (r2, lg2, es2)"
  shows "get_cooldown lg nm = (if nm = ''Unknown'' then unknown_cooldown lg else known_cooldown lg) \<and>
         (last_seen lg nm = None \<longrightarrow> r1) \<and>
         (c2 - n1 \<le> get_cooldown lg nm \<longrightarrow>
            length (rows_of (es1 @ es2)) \<le> 1 \<and> length (alerts_of (es1 @ es2)) \<le> 1) \<and>
         (r1 \<and> c2 - n1 \<le> get_cooldown lg nm \<longrightarrow>
            \<not> r2 \<and> lg2 = lg1 \<and> es2 = [] \<and> length (rows_of (es1 @ es2)) = 1) \<and>
         (r1 \<and> c2 - n1 > get_cooldown lg nm \<longrightarrow>
            r2 \<and> length (rows_of es1) = 1 \<and> length (rows_of es2) = 1 \<and>
            (nm = ''Unknown'' \<and> notifier lg \<longrightarrow>
               length (alerts_of es1) = 1 \<and> length (alerts_of es2) = 1))"
proof -
  note f = log_detection_cases[OF c1]
  note s = log_detection_cases[OF c2]
  have cd: "get_cooldown lg nm = (if nm = ''Unknown'' then unknown_cooldown lg else known_cooldown lg)"
    by (simp add: get_cooldown_def)
  have fresh: "last_seen lg nm = None \<longrightarrow> r1"
    using f(1) by (simp add: should_log_def)
  have r2_iff: "r1 \<Longrightarrow> r2 \<longleftrightarrow> c2 - n1 > get_cooldown lg nm"
    using f(3) s(1) should_log_after by simp
  have nt: "r1 \<Longrightarrow> notifier lg1 = notifier lg" using f(3) by simp
  have within: "c2 - n1 \<le> get_cooldown lg nm \<longrightarrow>
            length (rows_of (es1 @ es2)) \<le> 1 \<and> length (alerts_of (es1 @ es2)) \<le> 1"
  proof (cases r1)
    case True
    then show ?thesis using r2_iff s(2) f(6,7) by auto
  next
    case False
    then show ?thesis using f(2) s(6,7) by auto
  qed
  have supp: "r1 \<and> c2 - n1 \<le> get_cooldown lg nm \<longrightarrow>
            \<not> r2 \<and> lg2 = lg1 \<and> es2 = [] \<and> length (rows_of (es1 @ es2)) = 1"
    using r2_iff s(2) f(4) by auto
  have apart: "r1 \<and> c2 - n1 > get_cooldown lg nm \<longrightarrow>
            r2 \<and> length (rows_of es1) = 1 \<and> length (rows_of es2) = 1 \<and>
            (nm = ''Unknown'' \<and> notifier lg \<longrightarrow>
               length (alerts_of es1) = 1 \<and> length (alerts_of es2) = 1)"
    using r2_iff f(4,5) s(4,5) nt by auto
  from cd fresh within supp apart show ?thesis by blast
qed

theorem cooldown_gate_witness:
  "let lg = (logger_init 300 30)\<lparr>notifier := True\<rparr>;
       env = \<lparr>intruder_path = (\<lambda>t. ''intruders/snap.jpg''), send_alert_answer = (\<lambda>t p. True)\<rparr>;
       first = log_detection env lg 0 0 ''Unknown'';
       near = log_detection env (fst (snd first)) 10 10 ''Unknown'';
       far = log_detection env (fst (snd first)) 40 40 ''Unknown''
   in last_seen lg ''Unknown'' = None \<and> get_cooldown lg ''Unknown'' = 30 \<and> fst first \<and>
      \<not> fst near \<and> snd (snd near) = [] \<and>
      length (rows_of (snd (snd first) @ snd (snd near))) = 1 \<and>
      length (alerts_of (snd (snd first) @ snd (snd near))) \<le> 1 \<and>
      fst far \<and> length (rows_of (snd (snd far))) = 1 \<and> length (alerts_of (snd (snd far))) = 1"
proof -
  define lg where "lg = (logger_init 300 30)\<lparr>notifier := True\<rparr>"
  define env where "env = \<lparr>intruder_path = (\<lambda>t::time. ''intruders/snap.jpg''),
                             send_alert_answer = (\<lambda>(t::time) (p::string). True)\<rparr>"
  define first where "first = log_detection env lg 0 0 ''Unknown''"
  define near where "near = log_detection env (fst (snd first)) 10 10 ''Unknown''"
  define far where "far = log_detection env (fst (snd first)) 40 40 ''Unknown''"
  have h1: "log_detection env lg 0 0 ''Unknown'' = (fst first, fst (snd first), snd (snd first))"
    by (simp add: first_def)
  have h2: "log_detection env (fst (snd first)) 10 10 ''Unknown''
              = (fst near, fst (snd near), snd (snd near))"
    by (simp add: near_def)
  have h3: "log_detection env (fst (snd first)) 40 40 ''Unknown''
              = (fst far, fst (snd far), snd (snd far))"
    by (simp add: far_def)
  have none: "last_seen lg ''Unknown'' = None" and nt: "notifier lg"
    and cd: "get_cooldown lg ''Unknown'' = 30"
    by (simp_all add: lg_def logger_init_def get_cooldown_def)
  from cooldown_gate [OF h1 h2] cooldown_gate [OF h1 h3] none nt cd
  have "fst first \<and> \<not> fst near \<and> snd (snd near) = [] \<and>
      length (rows_of (snd (snd first) @ snd (snd near))) = 1 \<and>
      length (alerts_of (snd (snd first) @ snd (snd near))) \<le> 1 \<and>
      fst far \<and> length (rows_of (snd (snd far))) = 1 \<and> length (alerts_of (snd (snd far))) = 1"
    by simp
  with none cd show ?thesis
    unfolding lg_def env_def first_def near_def far_def Let_def by blast
qed

text \<open>
  Claim C9. On a logged event the assignment to \<open>last_seen\<close> is the first thing done,
  before the snapshot is saved and before the alert is dispatched; an alert is dispatched
  only for \<open>''Unknown''\<close> (exactly one when a notifier is attached); exactly one row is
  appended, and it is the same row whatever the alert sink answers; and a further call
  within the cooldown, whatever the sink answered before, is suppressed without any
  effect, so a failed alert is never repeated inside the window.
\<close>

theorem log_detection_ordering:
  assumes "should_log lg c nm" and "log_detection env lg c n nm = (r, lg1, es)"
  shows "r \<and> es = LastSeenSet nm n # tl es \<and> last_seen lg1 nm = Some n \<and>
         (alerts_of es \<noteq> [] \<longrightarrow> nm = ''Unknown'') \<and>
         (nm = ''Unknown'' \<and> notifier lg \<longrightarrow> length (alerts_of es) = 1) \<and>
         length (rows_of es) = 1 \<and>
         rows_of (snd (snd (log_detection (env\<lparr>send_alert_answer := ans\<rparr>) lg c n nm))) = rows_of es \<and>
         (cb - n \<le> get_cooldown lg nm \<longrightarrow> log_detection envb lg1 cb nb nm = (False, lg1, []))"
proof -
  note f = log_detection_cases[OF assms(2)]
  from f(1) assms(1) have r: r by simp
  have hd: "es = LastSeenSet nm n # tl es"
    using assms by (auto simp: log_detection_def Let_def split: if_splits)
  have ls: "last_seen lg1 nm = Some n" using f(3) r by simp
  have al: "alerts_of es \<noteq> [] \<longrightarrow> nm = ''Unknown''" using f(5) r by auto
  have al1: "nm = ''Unknown'' \<and> notifier lg \<longrightarrow> length (alerts_of es) = 1" using f(5) r by auto
  have rw: "length (rows_of es) = 1" using f(4) r by simp
  have same: "rows_of (snd (snd (log_detection (env\<lparr>send_alert_answer := ans\<rparr>) lg c n nm))) = rows_of es"
    using log_detection_logged(3)[OF assms(1), of "env\<lparr>send_alert_answer := ans\<rparr>" n] f(4) r by simp
  have nodup: "cb - n \<le> get_cooldown lg nm \<longrightarrow> log_detection envb lg1 cb nb nm = (False, lg1, [])"
    using f(3) r should_log_after[of lg nm n cb] log_detection_suppressed[of lg1 cb nm envb nb] by auto
  from r hd ls al al1 rw same nodup show ?thesis by blast
qed

theorem log_detection_ordering_witness:
  "let lg = (logger_init 300 30)\<lparr>notifier := True\<rparr>;
       env = \<lparr>intruder_path = (\<lambda>t. ''intruders/snap.jpg''), send_alert_answer = (\<lambda>t p. False)\<rparr>;
       first = log_detection env lg 0 0 ''Unknown''
   in should_log lg 0 ''Unknown'' \<and> fst first \<and>
      hd (snd (snd first)) = LastSeenSet ''Unknown'' 0 \<and>
      alerts_of (snd (snd first)) = [AlertSent 0 ''intruders/snap.jpg'' False] \<and>
      length (rows_of (snd (snd first))) = 1 \<and>
      log_detection env (fst (snd first)) 10 10 ''Unknown'' = (False, fst (snd first), [])"
proof -
  define lg where "lg = (logger_init 300 30)\<lparr>notifier := True\<rparr>"
  define env where "env = \<lparr>intruder_path = (\<lambda>t::time. ''intruders/snap.jpg''),
                             send_alert_answer = (\<lambda>(t::time) (p::string). False)\<rparr>"
  define first where "first = log_detection env lg 0 0 ''Unknown''"
  have h0: "should_log lg 0 ''Unknown''"
    by (simp add: lg_def logger_init_def should_log_def)
  have h1: "log_detection env lg 0 0 ''Unknown'' = (fst first, fst (snd first), snd (snd first))"
    by (simp add: first_def)
  have cd: "get_cooldown lg ''Unknown'' = 30"
    by (simp add: lg_def logger_init_def get_cooldown_def)
  have al: "alerts_of (snd (snd first)) = [AlertSent 0 ''intruders/snap.jpg'' False]"
    by (simp add: first_def log_detection_def should_log_def Let_def alerts_of_def lg_def env_def
          logger_init_def)
  from log_detection_ordering [OF h0 h1, where cb = 10 and nb = 10 and envb = env] cd
  have "fst first \<and> snd (snd first) = LastSeenSet ''Unknown'' 0 # tl (snd (snd first)) \<and>
        length (rows_of (snd (snd first))) = 1 \<and>
        log_detection env (fst (snd first)) 10 10 ''Unknown'' = (False, fst (snd first), [])"
    by simp
  then have "fst first \<and> hd (snd (snd first)) = LastSeenSet ''Unknown'' 0 \<and>
        length (rows_of (snd (snd first))) = 1 \<and>
        log_detection env (fst (snd first)) 10 10 ''Unknown'' = (False, fst (snd first), [])"
    by (metis list.sel(1))
  with h0 al show ?thesis
    unfolding lg_def env_def first_def Let_def by blast
qed

section \<open>Verification: VideoRecorder\<close>

lemma stop_not_recording: "\<not> recording rc \<Longrightarrow> stop rc = (None, rc, [])"
  by (simp add: stop_def)

lemma stop_recording:
  "recording rc \<Longrightarrow>
     stop rc = (current_file rc,
                rc\<lparr>recording := False, writer := None, current_file := None, frame_count := 0,
                   start_time := None\<rparr>,
                (case writer rc of None \<Rightarrow> [] | Some w \<Rightarrow> [WriterReleased w]))"
  by (simp add: stop_def)

lemma stop_clears: "\<not> recording (fst (snd (stop rc)))"
  by (simp add: stop_def)

lemma start_idle:
  "\<not> recording rc \<Longrightarrow>
     start rc fs stamp now =
       (Some (path_join (output_dir rc) (stamp @ ''.mp4'')),
        rc\<lparr>current_file := Some (path_join (output_dir rc) (stamp @ ''.mp4'')),
           writer := Some (path_join (output_dir rc) (stamp @ ''.mp4'')), recording := True,
           frame_count := 0, start_time := Some now, reminder_acknowledged := False,
           last_reminder_time := Some now, reminder_count := 0\<rparr>,
        [WriterOpened (path_join (output_dir rc) (stamp @ ''.mp4'')) fs, ReminderThreadStarted])"
  by (simp add: start_def Let_def)

lemma start_active: "recording rc \<Longrightarrow> start rc fs stamp now = (current_file rc, rc, [])"
  by (simp add: start_def)

lemma tick_quiet:
  assumes "recording rc" "last_reminder_time rc = Some l"
    "now - l < (if reminder_count rc = 0 then first_interval else followup_interval)"
  shows "reminder_tick rc now = (Continue, rc, [])"
  using assms by (simp add: reminder_tick_def Let_def)

lemma tick_remind:
  assumes "recording rc" "last_reminder_time rc = Some l"
    "now - l \<ge> (if reminder_count rc = 0 then first_interval else followup_interval)"
    "Suc (reminder_count rc) < max_reminders"
  shows "reminder_tick rc now =
           (Continue,
            rc\<lparr>reminder_count := reminder_count rc + 1, last_reminder_time := Some now,
               reminder_acknowledged := False\<rparr>,
            (if on_reminder rc
             then [ReminderCallback (reminder_count rc + 1) (get_duration rc now / 60)] else []))"
  using assms by (simp add: reminder_tick_def Let_def get_duration_def split: option.splits)


lemma loop_quiet:
  assumes "recording rc" "last_reminder_time rc = Some l"
    "\<forall>w\<in>set ws. w - l < (if reminder_count rc = 0 then first_interval else followup_interval)"
  shows "reminder_loop rc (ws @ rest) = reminder_loop rc rest"
  using assms
proof (induction ws)
  case Nil
  then show ?case by simp
next
  case (Cons w ws)
  then have "reminder_tick rc w = (Continue, rc, [])"
    using tick_quiet[of rc l w] by simp
  with Cons show ?case by simp
qed










text \<open>
  Claim C5. \<open>stop\<close> on a recorder that is not recording returns nothing and changes
  nothing. On a recording one it returns the current file, releases the writer and
  clears the recording state; in particular, after \<open>start\<close> it returns the file that
  \<open>start\<close> returned and releases its writer. Whatever the state, a second \<open>stop\<close> right
  after the first returns nothing, changes nothing, and the two together release a writer
  at most once.
\<close>

theorem stop_idempotent:
  "(\<not> recording rc \<longrightarrow> stop rc = (None, rc, [])) \<and>
   (recording rc \<longrightarrow>
      fst (stop rc) = current_file rc \<and>
      snd (snd (stop rc)) = (case writer rc of None \<Rightarrow> [] | Some w \<Rightarrow> [WriterReleased w]) \<and>
      \<not> recording (fst (snd (stop rc))) \<and> writer (fst (snd (stop rc))) = None \<and>
      current_file (fst (snd (stop rc))) = None \<and> frame_count (fst (snd (stop rc))) = 0 \<and>
      start_time (fst (snd (stop rc))) = None) \<and>
   (\<not> recording rc \<longrightarrow>
      stop (fst (snd (start rc fs stamp now)))
        = (fst (start rc fs stamp now),
           (fst (snd (start rc fs stamp now)))
             \<lparr>recording := False, writer := None, current_file := None, frame_count := 0,
              start_time := None\<rparr>,
           [WriterReleased (path_join (output_dir rc) (stamp @ ''.mp4''))])) \<and>
   stop (fst (snd (stop rc))) = (None, fst (snd (stop rc)), []) \<and>
   length (snd (snd (stop rc)) @ snd (snd (stop (fst (snd (stop rc)))))) \<le> 1"
proof -
  have a: "\<not> recording rc \<longrightarrow> stop rc = (None, rc, [])"
    by (simp add: stop_not_recording)
  have b: "recording rc \<longrightarrow>
      fst (stop rc) = current_file rc \<and>
      snd (snd (stop rc)) = (case writer rc of None \<Rightarrow> [] | Some w \<Rightarrow> [WriterReleased w]) \<and>
      \<not> recording (fst (snd (stop rc))) \<and> writer (fst (snd (stop rc))) = None \<and>
      current_file (fst (snd (stop rc))) = None \<and> frame_count (fst (snd (stop rc))) = 0 \<and>
      start_time (fst (snd (stop rc))) = None"
    by (simp add: stop_recording)
  have c: "\<not> recording rc \<longrightarrow>
      stop (fst (snd (start rc fs stamp now)))
        = (fst (start rc fs stamp now),
           (fst (snd (start rc fs stamp now)))
             \<lparr>recording := False, writer := None, current_file := None, frame_count := 0,
              start_time := None\<rparr>,
           [WriterReleased (path_join (output_dir rc) (stamp @ ''.mp4''))])"
    by (simp add: start_idle stop_recording)
  have d: "stop (fst (snd (stop rc))) = (None, fst (snd (stop rc)), [])"
    by (rule stop_not_recording) (rule stop_clears)
  have e: "length (snd (snd (stop rc)) @ snd (snd (stop (fst (snd (stop rc)))))) \<le> 1"
    unfolding d by (simp add: stop_def split: option.split)
  from a b c d e show ?thesis by blast
qed

theorem stop_idempotent_witness:
  "stop (fst (snd (start (recorder_init ''recordings'') (640, 480) ''2024-01-01_12-00-00'' 1000)))
     = (Some ''recordings/2024-01-01_12-00-00.mp4'',
        (recorder_init ''recordings'')
          \<lparr>reminder_acknowledged := False, last_reminder_time := Some 1000, reminder_count := 0\<rparr>,
        [WriterReleased ''recordings/2024-01-01_12-00-00.mp4'']) \<and>
   stop (recorder_init ''recordings'') = (None, recorder_init ''recordings'', [])"
proof -
  let ?rc = "recorder_init ''recordings''"
  have h: "\<not> recording ?rc" by (simp add: recorder_init_def)
  have p: "path_join (output_dir ?rc) (''2024-01-01_12-00-00'' @ ''.mp4'')
             = ''recordings/2024-01-01_12-00-00.mp4''"
    by (simp add: path_join_def recorder_init_def)
  from stop_idempotent [of ?rc "(640, 480)" "''2024-01-01_12-00-00''" 1000] h p
  show ?thesis
    by (simp add: start_idle recorder_init_def)
qed

text \<open>
  Claim C6. Acknowledging at \<open>ta\<close> while recording sets the reminder count to 0 and the
  last reminder time to \<open>ta\<close>, whatever the count, the previous reminder time and the
  start time were. From then on a pass of the loop before \<open>ta\<close> plus the first interval
  does nothing, as does the whole loop over any wake-ups before that time; the first pass
  at or after it fires reminder number 1.
\<close>

theorem acknowledge_resets:
  assumes "recording rc"
  shows "reminder_count (acknowledge_reminder rc ta) = 0 \<and>
         last_reminder_time (acknowledge_reminder rc ta) = Some ta \<and>
         reminder_acknowledged (acknowledge_reminder rc ta) \<and>
         (now - ta < first_interval \<longrightarrow>
            reminder_tick (acknowledge_reminder rc ta) now = (Continue, acknowledge_reminder rc ta, [])) \<and>
         ((\<forall>w\<in>set ws. w - ta < first_interval) \<longrightarrow>
            reminder_loop (acknowledge_reminder rc ta) ws = (False, acknowledge_reminder rc ta, [])) \<and>
         (now - ta \<ge> first_interval \<longrightarrow>
            reminder_tick (acknowledge_reminder rc ta) now =
              (Continue,
               rc\<lparr>reminder_acknowledged := False, last_reminder_time := Some now, reminder_count := 1\<rparr>,
               (if on_reminder rc then [ReminderCallback 1 (get_duration rc now / 60)] else [])))"
proof -
  let ?a = "acknowledge_reminder rc ta"
  have f: "recording ?a" "last_reminder_time ?a = Some ta" "reminder_count ?a = 0"
    "reminder_acknowledged ?a" "on_reminder ?a = on_reminder rc"
    using assms by (simp_all add: acknowledge_reminder_def)
  have q: "now - ta < first_interval \<longrightarrow> reminder_tick ?a now = (Continue, ?a, [])"
    using tick_quiet[of ?a ta now] f by simp
  have l: "(\<forall>w\<in>set ws. w - ta < first_interval) \<longrightarrow> reminder_loop ?a ws = (False, ?a, [])"
    using loop_quiet[of ?a ta ws "[]"] f by simp
  have g: "get_duration ?a now = get_duration rc now"
    by (simp add: get_duration_def acknowledge_reminder_def split: option.splits)
  have r: "now - ta \<ge> first_interval \<longrightarrow>
            reminder_tick ?a now =
              (Continue,
               rc\<lparr>reminder_acknowledged := False, last_reminder_time := Some now, reminder_count := 1\<rparr>,
               (if on_reminder rc then [ReminderCallback 1 (get_duration rc now / 60)] else []))"
    using tick_remind[of ?a ta now] f g
    by (simp add: max_reminders_def) (simp add: acknowledge_reminder_def)
  from f q l r show ?thesis by blast
qed

theorem acknowledge_resets_witness:
  "recording (fst (snd (start ((recorder_init ''recordings'')\<lparr>on_reminder := True\<rparr>)
                         (640, 480) ''2024-01-01_12-00-00'' 1000))) \<and>
   reminder_tick
     (acknowledge_reminder
        (fst (snd (start ((recorder_init ''recordings'')\<lparr>on_reminder := True\<rparr>)
                     (640, 480) ''2024-01-01_12-00-00'' 1000))) 2000) 2500
     = (Continue,
        acknowledge_reminder
          (fst (snd (start ((recorder_init ''recordings'')\<lparr>on_reminder := True\<rparr>)
                       (640, 480) ''2024-01-01_12-00-00'' 1000))) 2000,
        []) \<and>
   snd (snd (reminder_tick
     (acknowledge_reminder
        (fst (snd (start ((recorder_init ''recordings'')\<lparr>on_reminder := True\<rparr>)
                     (640, 480) ''2024-01-01_12-00-00'' 1000))) 2000) 2600))
     = [ReminderCallback 1 (80 / 3)]"
proof -
  let ?rc = "fst (snd (start ((recorder_init ''recordings'')\<lparr>on_reminder := True\<rparr>)
                         (640, 480) ''2024-01-01_12-00-00'' 1000))"
  have h: "recording ?rc" by (simp add: start_def recorder_init_def Let_def)
  have cb: "on_reminder ?rc" by (simp add: start_def recorder_init_def Let_def)
  have d: "get_duration ?rc 2600 / 60 = 80 / 3"
    by (simp add: get_duration_def start_def recorder_init_def Let_def)
  from acknowledge_resets [OF h, of 2000 2500 "[]"] acknowledge_resets [OF h, of 2000 2600 "[]"]
  have "reminder_tick (acknowledge_reminder ?rc 2000) 2500
          = (Continue, acknowledge_reminder ?rc 2000, []) \<and>
        snd (snd (reminder_tick (acknowledge_reminder ?rc 2000) 2600))
          = [ReminderCallback 1 (80 / 3)]"
    using cb d by (simp add: first_interval_def)
  with h show ?thesis by blast
qed

section \<open>Verification: TelegramBot and the record-start command\<close>

lemma send_message_no_registration: "filter is_registration (send_message bt r) = []"
  by (simp add: send_message_def)

lemma send_alert_no_registration: "filter is_registration (send_alert bt p) = []"
  by (simp add: send_alert_def)

lemmas no_reg = send_message_no_registration send_alert_no_registration

lemma no_registration_if:
  "filter is_registration (snd a) = [] \<Longrightarrow> filter is_registration (snd b) = [] \<Longrightarrow>
   filter is_registration (snd (if c then a else b)) = []"
  by simp

lemma cmd_no_registration:
  "filter is_registration (snd (cmd_start bt)) = []"
  "filter is_registration (snd (cmd_stop bt)) = []"
  "filter is_registration (snd (cmd_status env bt)) = []"
  "filter is_registration (snd (cmd_list env bt)) = []"
  "filter is_registration (snd (cmd_add bt arg)) = []"
  "filter is_registration (snd (cmd_remove env bt arg)) = []"
  "filter is_registration (snd (cmd_record env bt)) = []"
  "filter is_registration (snd (cmd_stoprecord env bt)) = []"
  "filter is_registration (snd (cmd_continue bt)) = []"
  "filter is_registration (snd (cmd_recordings env bt)) = []"
  "filter is_registration (snd (cmd_snap env bt)) = []"
  "filter is_registration (snd (bt, send_message bt r)) = []"
  by (simp_all add: cmd_start_def cmd_stop_def cmd_status_def cmd_list_def
      cmd_add_def cmd_remove_def cmd_record_def cmd_stoprecord_def cmd_continue_def
      cmd_recordings_def cmd_snap_def no_reg)

lemma run_command_no_registration:
  "filter is_registration (snd (run_command env bt cmd arg)) = []"
  unfolding run_command_def
  by (intro no_registration_if cmd_no_registration)

lemma handle_command_no_registration:
  "filter is_registration (snd (snd (handle_command env bt txt))) = []"
proof (cases "split_once txt")
  case Nil
  then show ?thesis by (simp add: handle_command_def)
next
  case (Cons p ps)
  obtain bt1 es where r: "run_command env bt (takeWhile (\<lambda>c. c \<noteq> 64) (str_lower env p))
        (case ps of [] \<Rightarrow> [] | a # others \<Rightarrow> a) = (bt1, es)"
    by (cases "run_command env bt (takeWhile (\<lambda>c. c \<noteq> 64) (str_lower env p))
        (case ps of [] \<Rightarrow> [] | a # others \<Rightarrow> a)") auto
  with run_command_no_registration[of env bt "takeWhile (\<lambda>c. c \<noteq> 64) (str_lower env p)"
        "case ps of [] \<Rightarrow> [] | a # others \<Rightarrow> a"]
  have "filter is_registration es = []" by simp
  with Cons r show ?thesis
    by (simp add: handle_command_def Let_def)
qed

lemma two_parts:
  "(if P then [] else if Q then [h] else [h, r]) = [c, a] \<Longrightarrow> \<not> P \<and> \<not> Q \<and> h = c \<and> r = a"
  by (simp split: if_splits)

lemma split_once_second:
  assumes "split_once s = [c, a]"
  shows "a \<noteq> []"
  using two_parts[OF assms[unfolded split_once_def Let_def]] by blast

lemma handle_add_photo_state:
  "fst (snd (handle_add_photo env bt photos)) = bt\<lparr>pending_add_name := None\<rparr>"
proof (cases "largest_photo photos")
  case None
  then show ?thesis by (simp add: handle_add_photo_def Let_def)
next
  case (Some ph)
  show ?thesis
  proof (cases "get_file env (file_id ph)")
    case RequestFailed
    with Some show ?thesis by (simp add: handle_add_photo_def Let_def)
  next
    case NoFilePath
    with Some show ?thesis by (simp add: handle_add_photo_def Let_def)
  next
    case (FilePath fp)
    with Some show ?thesis
      by (cases "download env fp") (simp_all add: handle_add_photo_def Let_def)
  qed
qed

lemma handle_add_photo_fails:
  assumes "download_fails env photos"
  shows "filter is_registration (snd (snd (handle_add_photo env bt photos))) = []"
proof (cases "largest_photo photos")
  case None
  then show ?thesis by (simp add: handle_add_photo_def Let_def)
next
  case (Some ph)
  show ?thesis
  proof (cases "get_file env (file_id ph)")
    case RequestFailed
    with Some show ?thesis by (simp add: handle_add_photo_def Let_def)
  next
    case NoFilePath
    with Some show ?thesis by (simp add: handle_add_photo_def Let_def no_reg)
  next
    case (FilePath fp)
    with Some assms have "fp = [] \<or> download env fp = None"
      by (simp add: download_fails_def)
    with Some FilePath show ?thesis
      by (auto simp: handle_add_photo_def Let_def no_reg)
  qed
qed

lemma handle_add_photo_ok:
  assumes "largest_photo photos = Some ph" "get_file env (file_id ph) = FilePath fp" "fp \<noteq> []"
    "download env fp = Some img" "pending_add_name bt = Some n"
    "save_ok env (upath_join (known_dir env) (n @ ustr ''.jpg''))"
  shows "handle_add_photo env bt photos =
           (Done, bt\<lparr>pending_add_name := None\<rparr>,
            [GetFile (file_id ph), Download fp, SaveFace (upath_join (known_dir env) (n @ ustr ''.jpg'')) img] @
            send_message bt (Added n) @
            (if on_add_face bt then [CallOnAddFace n (upath_join (known_dir env) (n @ ustr ''.jpg''))] else []))"
  using assms by (simp add: handle_add_photo_def Let_def send_message_def)

lemma handle_add_photo_unsaved:
  assumes "largest_photo photos = Some ph" "get_file env (file_id ph) = FilePath fp" "fp \<noteq> []"
    "download env fp = Some img" "pending_add_name bt = Some n"
    "\<not> save_ok env (upath_join (known_dir env) (n @ ustr ''.jpg''))"
  shows "handle_add_photo env bt photos =
           (Raised SaveError, bt\<lparr>pending_add_name := None\<rparr>, [GetFile (file_id ph), Download fp])"
  using assms by (simp add: handle_add_photo_def Let_def)

lemma run_command_add: "run_command env bt (ustr ''/add'') arg = cmd_add bt arg"
  by (simp add: run_command_def ustr_def)

lemma run_command_record: "run_command env bt (ustr ''/record'') arg = cmd_record env bt"
  by (simp add: run_command_def ustr_def)

lemma handle_command_add:
  assumes "split_once txt = [c, arg]" "takeWhile (\<lambda>x. x \<noteq> 64) (str_lower env c) = ustr ''/add''"
  shows "handle_command env bt txt =
           (Done, bt\<lparr>pending_add_name := Some arg\<rparr>, send_message bt (SendPhotoFor arg))"
  using assms split_once_second[OF assms(1)]
  by (simp add: handle_command_def run_command_add cmd_add_def)

lemma startswith_slash:
  "startswith s (ustr ''/add '') \<Longrightarrow> startswith s (ustr ''/'')"
  by (cases s) (simp_all add: startswith_def ustr_def)

lemma stray_ignored:
  assumes "msg_chat_id msg = chat_id bt" "\<not> truthy (pending_add_name bt)"
    "\<not> startswith (strip (msg_text msg)) (ustr ''/'')" "\<not> startswith (strip (msg_caption msg)) (ustr ''/'')"
  shows "handle_update env bt msg = (Done, bt, [])"
proof -
  have "\<not> startswith (strip (msg_caption msg)) (ustr ''/add '')"
    using assms(4) startswith_slash by blast
  with assms show ?thesis by (simp add: handle_update_def Let_def)
qed

lemma pending_consumed:
  assumes "msg_chat_id msg = chat_id bt" "msg_photo msg \<noteq> []" "truthy (pending_add_name bt)"
    "\<not> startswith (strip (msg_caption msg)) (ustr ''/add '')"
  shows "handle_update env bt msg = handle_add_photo env bt (msg_photo msg)"
  using assms by (simp add: handle_update_def Let_def)

lemma no_inline_no_pending:
  assumes "msg_chat_id msg = chat_id bt" "\<not> truthy (pending_add_name bt)"
    "\<not> (startswith (strip (msg_caption msg)) (ustr ''/add '') \<and> inline_name (strip (msg_caption msg)) \<noteq> [])"
  shows "filter is_registration (snd (snd (handle_update env bt msg))) = []"
  using assms handle_command_no_registration
  by (auto simp: handle_update_def Let_def)

lemmas bot_samples = demo_env_def demo_bot_def stop_photo_def plain_photo_def
  inline_photo_def add_alice_def stranger_stop_def failing_env_def bot_init_def
  setup_bot_callbacks_def ustr_def

lemmas string_eval = strip_def is_space_def startswith_def inline_name_def split_all_def
  split_once_def ascii_lower_def upath_join_def truthy_def Let_def

text \<open>
  Claim C7. A message whose chat id differs from the bot's configured chat id is handled by
  returning at once: no callback, no reply, no other effect, and the bot's state (pause
  flag, pending name and all the rest) is the state before, whatever the message holds.
\<close>

theorem unauthorized_dropped:
  "msg_chat_id msg \<noteq> chat_id bt \<Longrightarrow> handle_update env bt msg = (Done, bt, [])"
  by (simp add: handle_update_def)

theorem unauthorized_dropped_witness:
  "msg_chat_id stranger_stop \<noteq> chat_id demo_bot \<and>
   handle_update demo_env demo_bot stranger_stop = (Done, demo_bot, [])"
proof -
  have h: "msg_chat_id stranger_stop \<noteq> chat_id demo_bot"
    by (simp add: bot_samples)
  from unauthorized_dropped [OF h] h show ?thesis by blast
qed

text \<open>
  Claim C8, as stated, fails: a photo from the authorized chat that arrives with no
  pending name and whose caption is the command \<^verbatim>\<open>/stop\<close> (no name in it) is not ignored;
  the caption is run as a command and pauses surveillance.
\<close>

theorem stray_photo_counterexample:
  "msg_chat_id stop_photo = chat_id demo_bot \<and> msg_photo stop_photo \<noteq> [] \<and>
   pending_add_name demo_bot = None \<and> inline_name (strip (msg_caption stop_photo)) = [] \<and>
   surveillance_active demo_bot \<and>
   handle_update demo_env demo_bot stop_photo
     = (Done, demo_bot\<lparr>surveillance_active := False\<rparr>, [CallOnStop, Reply SurveillanceStopped]) \<and>
   handle_update demo_env demo_bot stop_photo \<noteq> (Done, demo_bot, [])"
  by (simp add: bot_samples string_eval handle_update_def handle_command_def run_command_def
      cmd_stop_def send_message_def)

text \<open>
  Claim C8, amended. For a message of the authorized chat, with text and caption read
  after \<^verbatim>\<open>strip()\<close> has removed surrounding white space: a text \<^verbatim>\<open>/add <name>\<close> sets the
  pending name to that name whatever the slot held (a second one overwrites the first); a
  photo arriving while a name is pending, with no \<^verbatim>\<open>/add <name>\<close> in its own caption, whose
  download succeeds and whose image file can be written, saves the image under the
  pending name, confirms, invokes the registration callback once and clears the slot;
  when the image file cannot be written (as for a name with a slash whose directory does
  not exist) the call ends with the error, the slot cleared and nothing registered; a
  photo arriving with no pending name whose text and caption do not start with a slash is
  ignored (same state, no effect); and a photo arriving with no pending name and no
  \<^verbatim>\<open>/add <name>\<close> caption never registers anything, though a command in its caption is run
  as a command.
\<close>

theorem add_handshake:
  assumes "msg_chat_id msg = chat_id bt"
  shows "(msg_photo msg = [] \<and> startswith (strip (msg_text msg)) (ustr ''/'') \<and>
          split_once (strip (msg_text msg)) = [c, arg] \<and>
          takeWhile (\<lambda>x. x \<noteq> 64) (str_lower env c) = ustr ''/add'' \<longrightarrow>
            handle_update env bt msg
              = (Done, bt\<lparr>pending_add_name := Some arg\<rparr>, send_message bt (SendPhotoFor arg))) \<and>
         (msg_photo msg \<noteq> [] \<and> pending_add_name bt = Some n \<and> n \<noteq> [] \<and>
          \<not> startswith (strip (msg_caption msg)) (ustr ''/add '') \<and>
          largest_photo (msg_photo msg) = Some ph \<and> get_file env (file_id ph) = FilePath fp \<and>
          fp \<noteq> [] \<and> download env fp = Some img \<and>
          save_ok env (upath_join (known_dir env) (n @ ustr ''.jpg'')) \<longrightarrow>
            handle_update env bt msg
              = (Done, bt\<lparr>pending_add_name := None\<rparr>,
                 [GetFile (file_id ph), Download fp,
                  SaveFace (upath_join (known_dir env) (n @ ustr ''.jpg'')) img] @
                 send_message bt (Added n) @
                 (if on_add_face bt
                  then [CallOnAddFace n (upath_join (known_dir env) (n @ ustr ''.jpg''))] else []))) \<and>
         (msg_photo msg \<noteq> [] \<and> pending_add_name bt = Some n \<and> n \<noteq> [] \<and>
          \<not> startswith (strip (msg_caption msg)) (ustr ''/add '') \<and>
          largest_photo (msg_photo msg) = Some ph \<and> get_file env (file_id ph) = FilePath fp \<and>
          fp \<noteq> [] \<and> download env fp = Some img \<and>
          \<not> save_ok env (upath_join (known_dir env) (n @ ustr ''.jpg'')) \<longrightarrow>
            handle_update env bt msg
              = (Raised SaveError, bt\<lparr>pending_add_name := None\<rparr>,
                 [GetFile (file_id ph), Download fp])) \<and>
         (\<not> truthy (pending_add_name bt) \<and> \<not> startswith (strip (msg_text msg)) (ustr ''/'') \<and>
          \<not> startswith (strip (msg_caption msg)) (ustr ''/'') \<longrightarrow>
            handle_update env bt msg = (Done, bt, [])) \<and>
         (\<not> truthy (pending_add_name bt) \<and>
          \<not> (startswith (strip (msg_caption msg)) (ustr ''/add '') \<and>
             inline_name (strip (msg_caption msg)) \<noteq> []) \<longrightarrow>
            filter is_registration (snd (snd (handle_update env bt msg))) = [])"
proof (intro conjI impI)
  show "handle_update env bt msg
          = (Done, bt\<lparr>pending_add_name := Some arg\<rparr>, send_message bt (SendPhotoFor arg))"
    if a: "msg_photo msg = [] \<and> startswith (strip (msg_text msg)) (ustr ''/'') \<and>
          split_once (strip (msg_text msg)) = [c, arg] \<and>
          takeWhile (\<lambda>x. x \<noteq> 64) (str_lower env c) = ustr ''/add''"
  proof -
    from a have "handle_update env bt msg = handle_command env bt (strip (msg_text msg))"
      using assms by (simp add: handle_update_def Let_def)
    with a handle_command_add[of "strip (msg_text msg)" c arg env bt]
    show ?thesis by simp
  qed
  show "handle_update env bt msg
          = (Done, bt\<lparr>pending_add_name := None\<rparr>,
             [GetFile (file_id ph), Download fp,
              SaveFace (upath_join (known_dir env) (n @ ustr ''.jpg'')) img] @
             send_message bt (Added n) @
             (if on_add_face bt
              then [CallOnAddFace n (upath_join (known_dir env) (n @ ustr ''.jpg''))] else []))"
    if a: "msg_photo msg \<noteq> [] \<and> pending_add_name bt = Some n \<and> n \<noteq> [] \<and>
          \<not> startswith (strip (msg_caption msg)) (ustr ''/add '') \<and>
          largest_photo (msg_photo msg) = Some ph \<and> get_file env (file_id ph) = FilePath fp \<and>
          fp \<noteq> [] \<and> download env fp = Some img \<and>
          save_ok env (upath_join (known_dir env) (n @ ustr ''.jpg''))"
  proof -
    from a have "truthy (pending_add_name bt)" by (simp add: truthy_def)
    with a assms have "handle_update env bt msg = handle_add_photo env bt (msg_photo msg)"
      using pending_consumed by blast
    with a handle_add_photo_ok[of "msg_photo msg" ph env fp img bt n]
    show ?thesis by simp
  qed
  show "handle_update env bt msg
          = (Raised SaveError, bt\<lparr>pending_add_name := None\<rparr>, [GetFile (file_id ph), Download fp])"
    if a: "msg_photo msg \<noteq> [] \<and> pending_add_name bt = Some n \<and> n \<noteq> [] \<and>
          \<not> startswith (strip (msg_caption msg)) (ustr ''/add '') \<and>
          largest_photo (msg_photo msg) = Some ph \<and> get_file env (file_id ph) = FilePath fp \<and>
          fp \<noteq> [] \<and> download env fp = Some img \<and>
          \<not> save_ok env (upath_join (known_dir env) (n @ ustr ''.jpg''))"
  proof -
    from a have "truthy (pending_add_name bt)" by (simp add: truthy_def)
    with a assms have "handle_update env bt msg = handle_add_photo env bt (msg_photo msg)"
      using pending_consumed by blast
    with a handle_add_photo_unsaved[of "msg_photo msg" ph env fp img bt n]
    show ?thesis by simp
  qed
  show "handle_update env bt msg = (Done, bt, [])"
    if "\<not> truthy (pending_add_name bt) \<and> \<not> startswith (strip (msg_text msg)) (ustr ''/'') \<and>
        \<not> startswith (strip (msg_caption msg)) (ustr ''/'')"
    using that stray_ignored[OF assms] by blast
  show "filter is_registration (snd (snd (handle_update env bt msg))) = []"
    if "\<not> truthy (pending_add_name bt) \<and>
        \<not> (startswith (strip (msg_caption msg)) (ustr ''/add '') \<and>
           inline_name (strip (msg_caption msg)) \<noteq> [])"
    using that no_inline_no_pending[OF assms] by blast
qed

theorem add_handshake_witness:
  "handle_update demo_env demo_bot add_alice
     = (Done, demo_bot\<lparr>pending_add_name := Some (ustr ''Alice'')\<rparr>,
        [Reply (SendPhotoFor (ustr ''Alice''))]) \<and>
   handle_update demo_env (demo_bot\<lparr>pending_add_name := Some (ustr ''Alice'')\<rparr>)
       (add_alice\<lparr>msg_text := ustr ''/add Bob''\<rparr>)
     = (Done, demo_bot\<lparr>pending_add_name := Some (ustr ''Bob'')\<rparr>,
        [Reply (SendPhotoFor (ustr ''Bob''))]) \<and>
   handle_update demo_env (demo_bot\<lparr>pending_add_name := Some (ustr ''Bob'')\<rparr>) plain_photo
     = (Done, demo_bot,
        [GetFile (ustr ''F1''), Download (ustr ''photos/file_1.jpg''),
         SaveFace (ustr ''known_faces/Bob.jpg'') (ustr ''JPEG''),
         Reply (Added (ustr ''Bob'')),
         CallOnAddFace (ustr ''Bob'') (ustr ''known_faces/Bob.jpg'')]) \<and>
   handle_update (demo_env\<lparr>save_ok := (\<lambda>p. False)\<rparr>)
       (demo_bot\<lparr>pending_add_name := Some (ustr ''a/b'')\<rparr>) plain_photo
     = (Raised SaveError, demo_bot, [GetFile (ustr ''F1''), Download (ustr ''photos/file_1.jpg'')]) \<and>
   handle_update demo_env demo_bot plain_photo = (Done, demo_bot, [])"
proof -
  let ?alice = "demo_bot\<lparr>pending_add_name := Some (ustr ''Alice'')\<rparr>"
  let ?bob = "demo_bot\<lparr>pending_add_name := Some (ustr ''Bob'')\<rparr>"
  let ?ab = "demo_bot\<lparr>pending_add_name := Some (ustr ''a/b'')\<rparr>"
  let ?add_bob = "add_alice\<lparr>msg_text := ustr ''/add Bob''\<rparr>"
  let ?ph = "\<lparr>file_id = ustr ''F1'', file_size = Some 100\<rparr>"
  let ?nosave = "demo_env\<lparr>save_ok := (\<lambda>p. False)\<rparr>"
  have a1: "msg_chat_id add_alice = chat_id demo_bot"
    and a2: "msg_photo add_alice = [] \<and> startswith (strip (msg_text add_alice)) (ustr ''/'') \<and>
          split_once (strip (msg_text add_alice)) = [ustr ''/add'', ustr ''Alice''] \<and>
          takeWhile (\<lambda>x. x \<noteq> 64) (str_lower demo_env (ustr ''/add'')) = ustr ''/add''"
    by (simp_all add: bot_samples string_eval)
  have s1: "handle_update demo_env demo_bot add_alice
     = (Done, ?alice, [Reply (SendPhotoFor (ustr ''Alice''))])"
    using add_handshake [OF a1, where c = "ustr ''/add''" and arg = "ustr ''Alice''"
        and env = demo_env] a2
    by (simp add: send_message_def bot_samples)
  have b1: "msg_chat_id ?add_bob = chat_id ?alice"
    and b2: "msg_photo ?add_bob = [] \<and> startswith (strip (msg_text ?add_bob)) (ustr ''/'') \<and>
          split_once (strip (msg_text ?add_bob)) = [ustr ''/add'', ustr ''Bob''] \<and>
          takeWhile (\<lambda>x. x \<noteq> 64) (str_lower demo_env (ustr ''/add'')) = ustr ''/add''"
    by (simp_all add: bot_samples string_eval)
  have s2: "handle_update demo_env ?alice ?add_bob
     = (Done, ?bob, [Reply (SendPhotoFor (ustr ''Bob''))])"
    using add_handshake [OF b1, where c = "ustr ''/add''" and arg = "ustr ''Bob''"
        and env = demo_env] b2
    by (simp add: send_message_def bot_samples)
  have c1: "msg_chat_id plain_photo = chat_id ?bob"
    and c2: "msg_photo plain_photo \<noteq> [] \<and> pending_add_name ?bob = Some (ustr ''Bob'') \<and>
          ustr ''Bob'' \<noteq> [] \<and>
          \<not> startswith (strip (msg_caption plain_photo)) (ustr ''/add '') \<and>
          largest_photo (msg_photo plain_photo) = Some ?ph \<and>
          get_file demo_env (file_id ?ph) = FilePath (ustr ''photos/file_1.jpg'') \<and>
          ustr ''photos/file_1.jpg'' \<noteq> [] \<and>
          download demo_env (ustr ''photos/file_1.jpg'') = Some (ustr ''JPEG'') \<and>
          save_ok demo_env (upath_join (known_dir demo_env) (ustr ''Bob'' @ ustr ''.jpg''))"
    by (simp_all add: bot_samples string_eval largest_photo_def)
  have s3: "handle_update demo_env ?bob plain_photo
     = (Done, demo_bot,
        [GetFile (ustr ''F1''), Download (ustr ''photos/file_1.jpg''),
         SaveFace (ustr ''known_faces/Bob.jpg'') (ustr ''JPEG''),
         Reply (Added (ustr ''Bob'')),
         CallOnAddFace (ustr ''Bob'') (ustr ''known_faces/Bob.jpg'')])"
    using add_handshake [OF c1, where n = "ustr ''Bob''" and ph = ?ph
        and fp = "ustr ''photos/file_1.jpg''" and img = "ustr ''JPEG''" and env = demo_env] c2
    by (simp add: send_message_def bot_samples ustr_def upath_join_def)
  have e1: "msg_chat_id plain_photo = chat_id ?ab"
    and e2: "msg_photo plain_photo \<noteq> [] \<and> pending_add_name ?ab = Some (ustr ''a/b'') \<and>
          ustr ''a/b'' \<noteq> [] \<and>
          \<not> startswith (strip (msg_caption plain_photo)) (ustr ''/add '') \<and>
          largest_photo (msg_photo plain_photo) = Some ?ph \<and>
          get_file ?nosave (file_id ?ph) = FilePath (ustr ''photos/file_1.jpg'') \<and>
          ustr ''photos/file_1.jpg'' \<noteq> [] \<and>
          download ?nosave (ustr ''photos/file_1.jpg'') = Some (ustr ''JPEG'') \<and>
          \<not> save_ok ?nosave (upath_join (known_dir ?nosave) (ustr ''a/b'' @ ustr ''.jpg''))"
    by (simp_all add: bot_samples string_eval largest_photo_def)
  have s5: "handle_update ?nosave ?ab plain_photo
     = (Raised SaveError, demo_bot, [GetFile (ustr ''F1''), Download (ustr ''photos/file_1.jpg'')])"
    using add_handshake [OF e1, where n = "ustr ''a/b''" and ph = ?ph
        and fp = "ustr ''photos/file_1.jpg''" and img = "ustr ''JPEG''" and env = ?nosave] e2
    by (simp add: bot_samples ustr_def)
  have d1: "msg_chat_id plain_photo = chat_id demo_bot"
    and d2: "\<not> truthy (pending_add_name demo_bot) \<and>
          \<not> startswith (strip (msg_text plain_photo)) (ustr ''/'') \<and>
          \<not> startswith (strip (msg_caption plain_photo)) (ustr ''/'')"
    by (simp_all add: bot_samples string_eval)
  have s4: "handle_update demo_env demo_bot plain_photo = (Done, demo_bot, [])"
    using add_handshake [OF d1, where env = demo_env] d2 by blast
  from s1 s2 s3 s5 s4 show ?thesis by blast
qed

text \<open>
  Claim C10, as stated, fails: a photo captioned \<^verbatim>\<open>/add Bob\<close> names itself. When its
  download fails the slot is empty afterwards and nothing is registered, but sending the
  same photo again is not a no-op: it registers Bob, with no naming command in between.
\<close>

theorem inline_retry_counterexample:
  "handle_update failing_env demo_bot inline_photo
     = (Done, demo_bot, [GetFile (ustr ''F1''), Reply DownloadFailed]) \<and>
   pending_add_name demo_bot = None \<and>
   handle_update demo_env demo_bot inline_photo
     = (Done, demo_bot,
        [GetFile (ustr ''F1''), Download (ustr ''photos/file_1.jpg''),
         SaveFace (ustr ''known_faces/Bob.jpg'') (ustr ''JPEG''),
         Reply (Added (ustr ''Bob'')), CallOnAddFace (ustr ''Bob'') (ustr ''known_faces/Bob.jpg'')]) \<and>
   handle_update demo_env demo_bot inline_photo \<noteq> (Done, demo_bot, [])"
  by (simp add: bot_samples string_eval handle_update_def handle_add_photo_def largest_photo_def
      send_message_def)

text \<open>
  Claim C10, amended. \<open>handle_add_photo\<close> clears the pending name before it fetches
  anything: in every outcome the slot is empty, also when the first request raises. When
  the download fails nothing is registered (no image saved, no callback). For a photo of
  the authorized chat that was consumed through the pending slot and whose text and
  caption, after \<^verbatim>\<open>strip()\<close> has removed surrounding white space, do not start with a slash,
  a retry of the same photo after a failed download is a no-op, whatever the download
  would now answer, so the name has to be given again. (A photo whose caption is
  \<^verbatim>\<open>/add <name>\<close> gives the name again by itself, and a caption that is another command is
  run as that command on the retry.)
\<close>

theorem add_photo_failure:
  "pending_add_name (fst (snd (handle_add_photo env bt photos))) = None \<and>
   (largest_photo photos = Some ph \<and> get_file env (file_id ph) = RequestFailed \<longrightarrow>
      handle_add_photo env bt photos
        = (Raised RequestException, bt\<lparr>pending_add_name := None\<rparr>, [GetFile (file_id ph)])) \<and>
   (download_fails env photos \<longrightarrow>
      filter is_registration (snd (snd (handle_add_photo env bt photos))) = []) \<and>
   (msg_chat_id msg = chat_id bt \<and> msg_photo msg \<noteq> [] \<and> truthy (pending_add_name bt) \<and>
    \<not> startswith (strip (msg_text msg)) (ustr ''/'') \<and> \<not> startswith (strip (msg_caption msg)) (ustr ''/'') \<and>
    download_fails env (msg_photo msg) \<longrightarrow>
      fst (snd (handle_update env bt msg)) = bt\<lparr>pending_add_name := None\<rparr> \<and>
      filter is_registration (snd (snd (handle_update env bt msg))) = [] \<and>
      handle_update env_retry (bt\<lparr>pending_add_name := None\<rparr>) msg
        = (Done, bt\<lparr>pending_add_name := None\<rparr>, []))"
proof -
  have cleared: "pending_add_name (fst (snd (handle_add_photo env bt photos))) = None"
    by (simp add: handle_add_photo_state)
  have raised: "largest_photo photos = Some ph \<and> get_file env (file_id ph) = RequestFailed \<longrightarrow>
      handle_add_photo env bt photos
        = (Raised RequestException, bt\<lparr>pending_add_name := None\<rparr>, [GetFile (file_id ph)])"
    by (simp add: handle_add_photo_def Let_def)
  have noreg: "download_fails env photos \<longrightarrow>
      filter is_registration (snd (snd (handle_add_photo env bt photos))) = []"
    using handle_add_photo_fails by blast
  have retry: "msg_chat_id msg = chat_id bt \<and> msg_photo msg \<noteq> [] \<and> truthy (pending_add_name bt) \<and>
    \<not> startswith (strip (msg_text msg)) (ustr ''/'') \<and> \<not> startswith (strip (msg_caption msg)) (ustr ''/'') \<and>
    download_fails env (msg_photo msg) \<longrightarrow>
      fst (snd (handle_update env bt msg)) = bt\<lparr>pending_add_name := None\<rparr> \<and>
      filter is_registration (snd (snd (handle_update env bt msg))) = [] \<and>
      handle_update env_retry (bt\<lparr>pending_add_name := None\<rparr>) msg
        = (Done, bt\<lparr>pending_add_name := None\<rparr>, [])"
  proof
    assume a: "msg_chat_id msg = chat_id bt \<and> msg_photo msg \<noteq> [] \<and> truthy (pending_add_name bt) \<and>
    \<not> startswith (strip (msg_text msg)) (ustr ''/'') \<and> \<not> startswith (strip (msg_caption msg)) (ustr ''/'') \<and>
    download_fails env (msg_photo msg)"
    then have na: "\<not> startswith (strip (msg_caption msg)) (ustr ''/add '')"
      using startswith_slash by blast
    with a have h: "handle_update env bt msg = handle_add_photo env bt (msg_photo msg)"
      using pending_consumed by blast
    have r: "handle_update env_retry (bt\<lparr>pending_add_name := None\<rparr>) msg
        = (Done, bt\<lparr>pending_add_name := None\<rparr>, [])"
      using a by (intro stray_ignored) (simp_all add: truthy_def)
    from a h r handle_add_photo_state[of env bt "msg_photo msg"]
      handle_add_photo_fails[of env "msg_photo msg" bt]
    show "fst (snd (handle_update env bt msg)) = bt\<lparr>pending_add_name := None\<rparr> \<and>
      filter is_registration (snd (snd (handle_update env bt msg))) = [] \<and>
      handle_update env_retry (bt\<lparr>pending_add_name := None\<rparr>) msg
        = (Done, bt\<lparr>pending_add_name := None\<rparr>, [])"
      by simp
  qed
  from cleared raised noreg retry show ?thesis by blast
qed

theorem add_photo_failure_witness:
  "download_fails failing_env (msg_photo plain_photo) \<and>
   handle_update failing_env (demo_bot\<lparr>pending_add_name := Some (ustr ''Bob'')\<rparr>) plain_photo
     = (Done, demo_bot, [GetFile (ustr ''F1''), Reply DownloadFailed]) \<and>
   handle_update demo_env demo_bot plain_photo = (Done, demo_bot, [])"
proof -
  let ?bob = "demo_bot\<lparr>pending_add_name := Some (ustr ''Bob'')\<rparr>"
  have h: "msg_chat_id plain_photo = chat_id ?bob \<and> msg_photo plain_photo \<noteq> [] \<and>
    truthy (pending_add_name ?bob) \<and>
    \<not> startswith (strip (msg_text plain_photo)) (ustr ''/'') \<and>
    \<not> startswith (strip (msg_caption plain_photo)) (ustr ''/'') \<and>
    download_fails failing_env (msg_photo plain_photo)"
    by (simp add: bot_samples string_eval download_fails_def largest_photo_def)
  have e: "?bob\<lparr>pending_add_name := None\<rparr> = demo_bot"
    by (simp add: bot_samples)
  have first: "handle_update failing_env ?bob plain_photo
     = (Done, demo_bot, [GetFile (ustr ''F1''), Reply DownloadFailed])"
    by (simp add: bot_samples string_eval handle_update_def handle_add_photo_def largest_photo_def
      send_message_def)
  from add_photo_failure [of failing_env ?bob "msg_photo plain_photo" _ plain_photo demo_env] h e
  have "handle_update demo_env demo_bot plain_photo = (Done, demo_bot, [])"
    by simp
  with h first show ?thesis by blast
qed

text \<open>
  Claim C4, as stated, fails in one point: \<open>start\<close> on a recorder that is already recording
  does not return nothing, it returns the file of the running session.
\<close>

theorem start_while_active_counterexample:
  "recording (fst (snd (start (recorder_init ''recordings'') (640, 480) ''2024-01-01_12-00-00'' 1000))) \<and>
   fst (start (fst (snd (start (recorder_init ''recordings'') (640, 480) ''2024-01-01_12-00-00'' 1000)))
          (640, 480) ''2024-01-01_12-05-00'' 1300)
     = Some ''recordings/2024-01-01_12-00-00.mp4'' \<and>
   fst (start (fst (snd (start (recorder_init ''recordings'') (640, 480) ''2024-01-01_12-00-00'' 1000)))
          (640, 480) ''2024-01-01_12-05-00'' 1300)
     \<noteq> None"
  by (simp add: start_def recorder_init_def path_join_def Let_def)

text \<open>
  Claim C4, amended. \<open>start\<close> on a recorder that is already recording changes nothing, has
  no effect and returns the file of the running session, so exactly that session stays
  active with its file, frame count, start time and reminder state. The record-start
  command goes through \<open>sys_on_record_start\<close>, which returns nothing in that case, and
  the bot then answers that a recording is already running. \<open>start\<close> on an idle recorder
  opens a writer on a file named by the timestamp in the output directory and sets the
  frame count to 0, the start time and last reminder time to now, the reminder count to 0
  and the acknowledged flag to False.
\<close>

theorem start_twice:
  "(recording rc \<longrightarrow>
      start rc fs stamp now = (current_file rc, rc, []) \<and>
      sys_on_record_start frame_size rc stamp now = (None, rc, []) \<and>
      (on_record_start bt \<and>
       record_start_result env = fst (sys_on_record_start frame_size rc stamp now) \<longrightarrow>
         run_command env bt (ustr ''/record'') arg
           = (bt, CallOnRecordStart # send_message bt AlreadyRecording))) \<and>
   (\<not> recording rc \<longrightarrow>
      start rc fs stamp now
        = (Some (path_join (output_dir rc) (stamp @ ''.mp4'')),
           rc\<lparr>current_file := Some (path_join (output_dir rc) (stamp @ ''.mp4'')),
              writer := Some (path_join (output_dir rc) (stamp @ ''.mp4'')), recording := True,
              frame_count := 0, start_time := Some now, reminder_acknowledged := False,
              last_reminder_time := Some now, reminder_count := 0\<rparr>,
           [WriterOpened (path_join (output_dir rc) (stamp @ ''.mp4'')) fs, ReminderThreadStarted]))"
proof -
  have active: "recording rc \<longrightarrow> start rc fs stamp now = (current_file rc, rc, [])"
    by (simp add: start_def)
  have guard: "recording rc \<longrightarrow> sys_on_record_start frame_size rc stamp now = (None, rc, [])"
    by (simp add: sys_on_record_start_def is_recording_def)
  have rec_cmd: "run_command env bt (ustr ''/record'') arg = cmd_record env bt"
    by (rule run_command_record)
  have answer: "recording rc \<longrightarrow> on_record_start bt \<and>
       record_start_result env = fst (sys_on_record_start frame_size rc stamp now) \<longrightarrow>
         run_command env bt (ustr ''/record'') arg
           = (bt, CallOnRecordStart # send_message bt AlreadyRecording)"
    unfolding rec_cmd
    by (simp add: sys_on_record_start_def is_recording_def cmd_record_def truthy_def)
  have idle: "\<not> recording rc \<longrightarrow>
      start rc fs stamp now
        = (Some (path_join (output_dir rc) (stamp @ ''.mp4'')),
           rc\<lparr>current_file := Some (path_join (output_dir rc) (stamp @ ''.mp4'')),
              writer := Some (path_join (output_dir rc) (stamp @ ''.mp4'')), recording := True,
              frame_count := 0, start_time := Some now, reminder_acknowledged := False,
              last_reminder_time := Some now, reminder_count := 0\<rparr>,
           [WriterOpened (path_join (output_dir rc) (stamp @ ''.mp4'')) fs, ReminderThreadStarted])"
    by (simp add: start_def Let_def)
  from active guard answer idle show ?thesis by blast
qed

theorem start_twice_witness:
  "start (recorder_init ''recordings'') (640, 480) ''2024-01-01_12-00-00'' 1000
     = (Some ''recordings/2024-01-01_12-00-00.mp4'',
        (recorder_init ''recordings'')
          \<lparr>current_file := Some ''recordings/2024-01-01_12-00-00.mp4'',
           writer := Some ''recordings/2024-01-01_12-00-00.mp4'', recording := True,
           start_time := Some 1000, last_reminder_time := Some 1000\<rparr>,
        [WriterOpened ''recordings/2024-01-01_12-00-00.mp4'' (640, 480), ReminderThreadStarted]) \<and>
   start (fst (snd (start (recorder_init ''recordings'') (640, 480) ''2024-01-01_12-00-00'' 1000)))
       (640, 480) ''2024-01-01_12-05-00'' 1300
     = (Some ''recordings/2024-01-01_12-00-00.mp4'',
        fst (snd (start (recorder_init ''recordings'') (640, 480) ''2024-01-01_12-00-00'' 1000)), []) \<and>
   sys_on_record_start (Some (640, 480))
       (fst (snd (start (recorder_init ''recordings'') (640, 480) ''2024-01-01_12-00-00'' 1000)))
       ''2024-01-01_12-05-00'' 1300
     = (None, fst (snd (start (recorder_init ''recordings'') (640, 480) ''2024-01-01_12-00-00'' 1000)), []) \<and>
   run_command demo_env demo_bot (ustr ''/record'') []
     = (demo_bot, [CallOnRecordStart, Reply AlreadyRecording])"
proof -
  let ?idle = "recorder_init ''recordings''"
  let ?rc = "fst (snd (start ?idle (640, 480) ''2024-01-01_12-00-00'' 1000))"
  have i: "\<not> recording ?idle" by (simp add: recorder_init_def)
  have p: "path_join (output_dir ?idle) (''2024-01-01_12-00-00'' @ ''.mp4'')
             = ''recordings/2024-01-01_12-00-00.mp4''"
    by (simp add: path_join_def recorder_init_def)
  from start_twice [of ?idle "(640, 480)" "''2024-01-01_12-00-00''" 1000] i
  have s1: "start ?idle (640, 480) ''2024-01-01_12-00-00'' 1000
     = (Some ''recordings/2024-01-01_12-00-00.mp4'',
        ?idle\<lparr>current_file := Some ''recordings/2024-01-01_12-00-00.mp4'',
           writer := Some ''recordings/2024-01-01_12-00-00.mp4'', recording := True,
           start_time := Some 1000, last_reminder_time := Some 1000\<rparr>,
        [WriterOpened ''recordings/2024-01-01_12-00-00.mp4'' (640, 480), ReminderThreadStarted])"
    unfolding p by (simp add: recorder_init_def)
  have r: "recording ?rc" and cf: "current_file ?rc = Some ''recordings/2024-01-01_12-00-00.mp4''"
    unfolding s1 by simp_all
  have w: "on_record_start demo_bot \<and>
       record_start_result demo_env
         = fst (sys_on_record_start (Some (640, 480)) ?rc ''2024-01-01_12-05-00'' 1300)"
    using r by (simp add: bot_samples sys_on_record_start_def is_recording_def)
  have en: "send_message demo_bot AlreadyRecording = [Reply AlreadyRecording]"
    by (simp add: send_message_def bot_samples)
  from start_twice [of ?rc "(640, 480)" "''2024-01-01_12-05-00''" 1300 "Some (640, 480)"
      demo_bot demo_env "[]"] r cf w en
  have s2: "start ?rc (640, 480) ''2024-01-01_12-05-00'' 1300
             = (Some ''recordings/2024-01-01_12-00-00.mp4'', ?rc, []) \<and>
        sys_on_record_start (Some (640, 480)) ?rc ''2024-01-01_12-05-00'' 1300 = (None, ?rc, []) \<and>
        run_command demo_env demo_bot (ustr ''/record'') [] = (demo_bot, [CallOnRecordStart, Reply AlreadyRecording])"
    by simp
  from s1 s2 show ?thesis by blast
qed

end
